theory Spec2Isabelle
  imports Complex_Main "HOL-Library.Char_ord" "HOL-Library.List_Lexorder" "HOL-Library.Log_Nat"
begin

section \<open>The Go standard library, as far as the scanner uses it\<close>

text \<open>
  Strings are byte strings: \<open>string\<close> is a list of \<open>char\<close>, compared bytewise and
  lexicographically (\<open>HOL-Library.Char_ord\<close>, \<open>HOL-Library.List_Lexorder\<close>), which is Go's
  \<^verbatim>\<open><\<close> on strings. An instant is a number of nanoseconds since the Unix epoch, a
  \<^verbatim>\<open>time.Duration\<close> a number of nanoseconds held in an \<^verbatim>\<open>int64\<close>.
\<close>

type_synonym time = int
type_synonym duration = int

definition Hour :: duration where
  "Hour = 3600000000000"

definition maxDuration :: duration where
  "maxDuration = 2 ^ 63 - 1"

definition minDuration :: duration where
  "minDuration = - (2 ^ 63)"

text \<open>\<^verbatim>\<open>t.Sub(u)\<close> saturates at the ends of \<^verbatim>\<open>int64\<close>; \<^verbatim>\<open>time.Since(u)\<close> is
  \<^verbatim>\<open>time.Now().Sub(u)\<close>, with the clock reading passed in as \<open>now\<close>.\<close>

definition time_Sub :: "time \<Rightarrow> time \<Rightarrow> duration" where
  "time_Sub t u =
     (if t - u > maxDuration then maxDuration
      else if t - u < minDuration then minDuration
      else t - u)"

definition time_Since :: "time \<Rightarrow> time \<Rightarrow> duration" where
  "time_Since now u = time_Sub now u"

text \<open>Integer division \<^verbatim>\<open>a / b\<close> truncates toward zero and \<^verbatim>\<open>a % b\<close> is the matching
  remainder, with the sign of \<open>a\<close> (for the positive divisors used here).\<close>

definition trunc_div :: "int \<Rightarrow> int \<Rightarrow> int" where
  "trunc_div a b = (if a < 0 then - ((- a) div b) else a div b)"

definition trunc_rem :: "int \<Rightarrow> int \<Rightarrow> int" where
  "trunc_rem a b = a - trunc_div a b * b"

text \<open>
  A \<^verbatim>\<open>float64\<close> is an IEEE 754 binary64 number. The model holds its value as a rational
  and rounds the exact result of every conversion and operation to 53 significant bits,
  to nearest and ties to even: \<open>rne\<close> rounds to the nearest integer, \<open>binade x\<close> is the
  exponent \<open>e\<close> of a positive \<open>x\<close>, the one with \<open>2 powi e \<le> x < 2 powi (e + 1)\<close>, and
  \<open>float64 x\<close> is the multiple of \<open>2 powi (e - 52)\<close> nearest to \<open>x\<close>. The exponent is not
  bounded in the model; the numbers formed from a \<^verbatim>\<open>Duration\<close> below are zero or lie
  between 1e-16 and 1e7 in magnitude, far inside the normal range of binary64.
\<close>

definition rne :: "rat \<Rightarrow> int" where
  "rne x =
     (let f = \<lfloor>x\<rfloor>; r = x - of_int f
      in if r < 1 / 2 then f
         else if 1 / 2 < r then f + 1
         else if even f then f else f + 1)"

definition binade :: "rat \<Rightarrow> int" where
  "binade x = (if 1 \<le> x then bitlen \<lfloor>x\<rfloor> - 1 else - bitlen (\<lceil>1 / x\<rceil> - 1))"

definition float64 :: "rat \<Rightarrow> rat" where
  "float64 x =
     (if x = 0 then 0
      else let u = 2 powi (binade \<bar>x\<bar> - 52)
           in sgn x * (of_int (rne (\<bar>x\<bar> / u)) * u))"

text \<open>The conversion \<^verbatim>\<open>int(x)\<close> of a \<^verbatim>\<open>float64\<close> discards the fraction.\<close>

definition f64_to_int :: "rat \<Rightarrow> int" where
  "f64_to_int x = (if x < 0 then - \<lfloor>- x\<rfloor> else \<lfloor>x\<rfloor>)"

text \<open>
  \<^verbatim>\<open>Duration.Hours\<close> of package \<^verbatim>\<open>time\<close>:
  \<^verbatim>\<open>hour := d / Hour; nsec := d % Hour; return float64(hour) + float64(nsec)/(60*60*1e9)\<close>.
\<close>

definition Hours :: "duration \<Rightarrow> rat" where
  "Hours d =
     (let hour = trunc_div d Hour;
          nsec = trunc_rem d Hour
      in float64 (float64 (of_int hour) + float64 (float64 (of_int nsec) / 3600000000000)))"

definition isDigit :: "char \<Rightarrow> bool" where
  "isDigit c = (CHR ''0'' \<le> c \<and> c \<le> CHR ''9'')"

definition digit_val :: "char \<Rightarrow> int" where
  "digit_val c = int (of_char c) - 48"

fun digits_val :: "int \<Rightarrow> string \<Rightarrow> int" where
  "digits_val acc [] = acc"
| "digits_val acc (c # cs) = digits_val (acc * 10 + digit_val c) cs"

text \<open>\<^verbatim>\<open>strings.Split(s, ".")[0]\<close>: the bytes before the first dot (all of \<open>s\<close> when it has
  none; \<^verbatim>\<open>Split\<close> never returns an empty slice for a non-empty separator).\<close>

definition split_first :: "string \<Rightarrow> string" where
  "split_first s = takeWhile (\<lambda>c. c \<noteq> CHR ''.'') s"

text \<open>\<^verbatim>\<open>strconv.Atoi\<close> on a 64-bit platform: an optional sign, then one or more decimal
  digits, and the value has to fit an \<^verbatim>\<open>int64\<close>.\<close>

definition Atoi :: "string \<Rightarrow> int option" where
  "Atoi s =
     (let neg = (s \<noteq> [] \<and> hd s = CHR ''-'');
          ds = (if s \<noteq> [] \<and> (hd s = CHR ''-'' \<or> hd s = CHR ''+'') then tl s else s);
          n = digits_val 0 ds
      in if ds = [] \<or> \<not> list_all isDigit ds then None
         else if neg then (if n > 2 ^ 63 then None else Some (- n))
         else (if n > 2 ^ 63 - 1 then None else Some n))"

text \<open>The proleptic Gregorian calendar of package \<^verbatim>\<open>time\<close>.\<close>

definition isLeap :: "int \<Rightarrow> bool" where
  "isLeap y = (y mod 4 = 0 \<and> (y mod 100 \<noteq> 0 \<or> y mod 400 = 0))"

definition daysIn :: "int \<Rightarrow> int \<Rightarrow> int" where
  "daysIn m y =
     (if m = 2 then (if isLeap y then 29 else 28)
      else if m = 4 \<or> m = 6 \<or> m = 9 \<or> m = 11 then 30
      else 31)"

text \<open>Days from 1970-01-01 to the given civil date.\<close>

definition days_from_civil :: "int \<Rightarrow> int \<Rightarrow> int \<Rightarrow> int" where
  "days_from_civil y m d =
     (let y' = (if m \<le> 2 then y - 1 else y);
          era = y' div 400;
          yoe = y' - era * 400;
          mp = (m + 9) mod 12;
          doy = (153 * mp + 2) div 5 + d - 1;
          doe = yoe * 365 + yoe div 4 - yoe div 100 + doy
      in era * 146097 + doe - 719468)"

text \<open>\<^verbatim>\<open>time.Date(y, m, d, 0, 0, 0, 0, time.UTC)\<close>.\<close>

definition time_Date :: "int \<Rightarrow> int \<Rightarrow> int \<Rightarrow> time" where
  "time_Date y m d = days_from_civil y m d * 24 * Hour"

text \<open>
  \<^verbatim>\<open>time.Parse("2006-01-02", s)\<close>: exactly four digits, a dash, two digits of a month
  in 1..12, a dash, two digits of a day that exists in that month, and nothing after.
  \<open>None\<close> is the parse error.
\<close>

definition time_Parse :: "string \<Rightarrow> time option" where
  "time_Parse s =
     (case s of
        [y1, y2, y3, y4, s1, m1, m2, s2, d1, d2] \<Rightarrow>
          (let y = digits_val 0 [y1, y2, y3, y4];
               m = digits_val 0 [m1, m2];
               d = digits_val 0 [d1, d2]
           in if list_all isDigit [y1, y2, y3, y4, m1, m2, d1, d2]
                 \<and> s1 = CHR ''-'' \<and> s2 = CHR ''-''
                 \<and> 1 \<le> m \<and> m \<le> 12 \<and> 1 \<le> d \<and> d \<le> daysIn m y
              then Some (time_Date y m d) else None)
      | _ \<Rightarrow> None)"

section \<open>The device record\<close>

record Software =
  SecurityPatchLevel :: string
  OSVersion :: string

record Device =
  GUID :: string
  OID :: string
  ParentDeviceGUID :: string
  ActivationStatus :: string
  Platform :: string
  Software :: Software
  ChildCount :: int
  LastUpdated :: time

section \<open>Analyzer: risk classification\<close>

datatype RiskLevel = RiskHigh | RiskMedium | RiskLow

text \<open>
  \<^verbatim>\<open>int(d.Hours() / 24 / 30)\<close>, the expression of \<^verbatim>\<open>analyzeAndroidRisk\<close> and of
  \<^verbatim>\<open>analyzeAndroidUpdatePatterns\<close>: the hours as a \<^verbatim>\<open>float64\<close>, two \<^verbatim>\<open>float64\<close>
  divisions, each rounded, and the truncation to an \<^verbatim>\<open>int\<close>.
\<close>

definition months_of :: "duration \<Rightarrow> int" where
  "months_of d = f64_to_int (float64 (float64 (Hours d / 24) / 30))"

text \<open>\<^verbatim>\<open>monthsOld := int(time.Since(patchDate).Hours() / 24 / 30)\<close>.\<close>

definition monthsOld :: "time \<Rightarrow> time \<Rightarrow> int" where
  "monthsOld now patchDate = months_of (time_Since now patchDate)"

text \<open>The age in truncated 30-day months as the specification words it: the number of
  whole periods of 30 days between the patch date and the clock reading.\<close>

definition spec_monthsOld :: "time \<Rightarrow> time \<Rightarrow> int" where
  "spec_monthsOld now patchDate = trunc_div (now - patchDate) (30 * 24 * Hour)"

definition analyzeAndroidRisk :: "time \<Rightarrow> string \<Rightarrow> RiskLevel" where
  "analyzeAndroidRisk now patchLevel =
     (case time_Parse patchLevel of
        None \<Rightarrow> RiskHigh
      | Some patchDate \<Rightarrow>
          (if monthsOld now patchDate \<ge> 12 then RiskHigh
           else if monthsOld now patchDate \<ge> 6 then RiskMedium
           else RiskLow))"

definition analyzeIOSRisk :: "string \<Rightarrow> RiskLevel" where
  "analyzeIOSRisk version =
     (if version = [] then RiskHigh
      else case Atoi (split_first version) of
        None \<Rightarrow> RiskHigh
      | Some versionNum \<Rightarrow>
          (if versionNum \<le> 15 then RiskHigh
           else if versionNum \<le> 17 then RiskMedium
           else RiskLow))"

section \<open>Device service: the vulnerability check\<close>

definition isVulnerable :: "time \<Rightarrow> Device \<Rightarrow> bool" where
  "isVulnerable now device =
     (if Platform device = ''ANDROID'' then
        (if SecurityPatchLevel (Software device) = [] then True
         else case time_Parse (SecurityPatchLevel (Software device)) of
           None \<Rightarrow> True
         | Some patchDate \<Rightarrow> time_Since now patchDate > 180 * 24 * Hour)
      else if Platform device = ''IOS'' then
        (if OSVersion (Software device) = [] then True
         else if length (OSVersion (Software device)) > 2
                 \<and> take 2 (OSVersion (Software device)) < ''15'' then True
         else False)
      else False)"

section \<open>Analyzer: version distribution\<close>

text \<open>
  A Go \<^verbatim>\<open>map[string]int\<close> is an association list with pairwise distinct keys; the
  order of its entries stands for the (unspecified) order in which \<^verbatim>\<open>range\<close> visits them.
  \<^verbatim>\<open>sort.Slice\<close> is modelled by insertion sort: the library leaves the algorithm open
  (and unstable), but for a comparison that is a strict total order on the elements every
  sorting algorithm returns the same list.
\<close>

fun insert_sorted :: "('a \<Rightarrow> 'a \<Rightarrow> bool) \<Rightarrow> 'a \<Rightarrow> 'a list \<Rightarrow> 'a list" where
  "insert_sorted lt x [] = [x]"
| "insert_sorted lt x (y # ys) =
     (if lt x y then x # y # ys else y # insert_sorted lt x ys)"

definition sort_Slice :: "('a \<Rightarrow> 'a \<Rightarrow> bool) \<Rightarrow> 'a list \<Rightarrow> 'a list" where
  "sort_Slice lt xs = foldr (insert_sorted lt) xs []"

text \<open>The field \<^verbatim>\<open>Percentage\<close> (a \<^verbatim>\<open>float64\<close>) is left out; it plays no part in the order.\<close>

record VersionDistribution =
  Version :: string
  Count :: int
  IsSupported :: bool

definition analyzeAndroidVersionDistribution ::
  "time \<Rightarrow> (string \<times> int) list \<Rightarrow> VersionDistribution list" where
  "analyzeAndroidVersionDistribution now patches =
     sort_Slice (\<lambda>a b. Version a > Version b)
       (map (\<lambda>(version, count).
               \<lparr>Version = version, Count = count,
                IsSupported =
                  (case time_Parse version of
                     None \<Rightarrow> False
                   | Some date \<Rightarrow> time_Since now date < 180 * 24 * Hour)\<rparr>)
            patches)"

definition ios_less :: "VersionDistribution \<Rightarrow> VersionDistribution \<Rightarrow> bool" where
  "ios_less a b =
     (let vi0 = split_first (Version a); vj0 = split_first (Version b)
      in if vi0 \<noteq> vj0 then vi0 > vj0 else Version a > Version b)"

definition analyzeIOSVersionDistribution ::
  "(string \<times> int) list \<Rightarrow> VersionDistribution list" where
  "analyzeIOSVersionDistribution versions =
     sort_Slice ios_less
       (map (\<lambda>(version, count).
               \<lparr>Version = version, Count = count,
                IsSupported =
                  ((case Atoi (split_first version) of None \<Rightarrow> 0 | Some n \<Rightarrow> n) \<ge> 15)\<rparr>)
            versions)"

text \<open>The order the specification describes for iOS: major version as an integer,
  descending, then the whole string, descending.\<close>

definition ios_major :: "string \<Rightarrow> int" where
  "ios_major v = (case Atoi (split_first v) of None \<Rightarrow> 0 | Some n \<Rightarrow> n)"

definition spec_ios_before :: "string \<Rightarrow> string \<Rightarrow> bool" where
  "spec_ios_before v w =
     (ios_major v > ios_major w \<or> (ios_major v = ios_major w \<and> v \<ge> w))"

section \<open>Errors and outcomes\<close>

text \<open>
  An \<^verbatim>\<open>error\<close> value: the context's error, an error of \<^verbatim>\<open>encoding/json\<close>, a failure
  of the HTTP transport, a plain message, \<^verbatim>\<open>fmt.Errorf("...: %w", err)\<close>, and the two
  error types of package \<^verbatim>\<open>errors\<close> of the repository. \<open>APIError\<close> carries the status
  code, the message and, when the details map is not nil, the response body held in it.
\<close>

datatype error =
    Canceled
  | JSONError
  | TransportError
  | ErrorString string
  | Wrap string error
  | APIError int string "string option"
  | ValidationError string string string

text \<open>What a call does: it returns a value, returns an error, or panics.\<close>

datatype 'a outcome = Returns 'a | Fails error | Panics

section \<open>The persistent store\<close>

text \<open>
  The BuntDB file is an ordered key-value table: a list of (key, value) pairs in
  ascending key order without duplicate keys. Values are the JSON texts. The functions of
  \<^verbatim>\<open>encoding/json\<close> on \<^verbatim>\<open>Device\<close> are parameters, held in a record; \<open>None\<close> is their
  error. Input/output errors of the database file are not modelled, and the context is
  either done or not for the whole of one call.
\<close>

type_synonym db = "(string \<times> string) list"

record codec =
  Marshal :: "Device \<Rightarrow> string option"
  Unmarshal :: "string \<Rightarrow> Device option"

definition tx_Get :: "db \<Rightarrow> string \<Rightarrow> string option" where
  "tx_Get t k = map_of t k"

fun tx_Set :: "db \<Rightarrow> string \<Rightarrow> string \<Rightarrow> db" where
  "tx_Set [] k v = [(k, v)]"
| "tx_Set ((k', v') # t) k v =
     (if k < k' then (k, v) # (k', v') # t
      else if k = k' then (k, v) # t
      else (k', v') # tx_Set t k v)"

definition tx_Delete :: "db \<Rightarrow> string \<Rightarrow> db" where
  "tx_Delete t k = filter (\<lambda>kv. fst kv \<noteq> k) t"

text \<open>\<^verbatim>\<open>tx.Ascend("", iterator)\<close>: the iterator sees the pairs in key order and stops the
  scan by returning false; the scan itself then returns nil. The state \<open>'s\<close> is what the
  closure captures and updates.\<close>

fun tx_Ascend :: "db \<Rightarrow> (string \<Rightarrow> string \<Rightarrow> 's \<Rightarrow> bool \<times> 's) \<Rightarrow> 's \<Rightarrow> 's" where
  "tx_Ascend [] f s = s"
| "tx_Ascend ((k, v) # t) f s =
     (case f k v s of
        (True, s') \<Rightarrow> tx_Ascend t f s'
      | (False, s') \<Rightarrow> s')"

definition db_ok :: "db \<Rightarrow> bool" where
  "db_ok t = sorted_wrt (<) (map fst t)"

definition Save :: "codec \<Rightarrow> bool \<Rightarrow> time \<Rightarrow> Device \<Rightarrow> db \<Rightarrow> error + db" where
  "Save J ctx_done now device t =
     (if ctx_done then Inl Canceled
      else case Marshal J (device\<lparr>LastUpdated := now\<rparr>) of
        None \<Rightarrow> Inl (Wrap ''marshaling device'' JSONError)
      | Some data \<Rightarrow> Inr (tx_Set t (GUID device) data))"

definition Get :: "codec \<Rightarrow> bool \<Rightarrow> string \<Rightarrow> db \<Rightarrow> error + Device" where
  "Get J ctx_done guid t =
     (if ctx_done then Inl Canceled
      else case tx_Get t guid of
        None \<Rightarrow> Inl (ErrorString (''device not found: '' @ guid))
      | Some val \<Rightarrow>
          (case Unmarshal J val of
             None \<Rightarrow> Inl JSONError
           | Some device \<Rightarrow> Inr device))"

definition List :: "codec \<Rightarrow> bool \<Rightarrow> db \<Rightarrow> error + Device list" where
  "List J ctx_done t =
     (if ctx_done then Inl Canceled
      else Inr (tx_Ascend t
                  (\<lambda>key value devices.
                     case Unmarshal J value of
                       None \<Rightarrow> (False, devices)
                     | Some device \<Rightarrow> (True, devices @ [device]))
                  []))"

definition Update :: "codec \<Rightarrow> bool \<Rightarrow> time \<Rightarrow> Device \<Rightarrow> db \<Rightarrow> error + db" where
  "Update J ctx_done now device t =
     (if ctx_done then Inl Canceled
      else case Marshal J (device\<lparr>LastUpdated := now\<rparr>) of
        None \<Rightarrow> Inl (Wrap ''marshaling device'' JSONError)
      | Some data \<Rightarrow>
          (case tx_Get t (GUID device) of
             None \<Rightarrow> Inl (ErrorString (''device not found: '' @ GUID device))
           | Some old \<Rightarrow> Inr (tx_Set t (GUID device) data)))"

definition Delete :: "bool \<Rightarrow> string \<Rightarrow> db \<Rightarrow> error + db" where
  "Delete ctx_done guid t =
     (if ctx_done then Inl Canceled
      else case tx_Get t guid of
        None \<Rightarrow> Inl (ErrorString (''device not found: '' @ guid))
      | Some old \<Rightarrow> Inr (tx_Delete t guid))"

definition GetByPlatform :: "codec \<Rightarrow> bool \<Rightarrow> string \<Rightarrow> db \<Rightarrow> error + Device list" where
  "GetByPlatform J ctx_done platform t =
     (if ctx_done then Inl Canceled
      else Inr (tx_Ascend t
                  (\<lambda>key value devices.
                     case Unmarshal J value of
                       None \<Rightarrow> (False, devices)
                     | Some device \<Rightarrow>
                         (True, if Platform device = platform then devices @ [device]
                                else devices))
                  []))"

definition GetActiveDevices :: "codec \<Rightarrow> bool \<Rightarrow> db \<Rightarrow> error + Device list" where
  "GetActiveDevices J ctx_done t =
     (if ctx_done then Inl Canceled
      else Inr (tx_Ascend t
                  (\<lambda>key value devices.
                     case Unmarshal J value of
                       None \<Rightarrow> (False, devices)
                     | Some device \<Rightarrow>
                         (True, if ActivationStatus device = ''ACTIVATED''
                                then devices @ [device] else devices))
                  []))"


section \<open>The device service\<close>

text \<open>
  A \<^verbatim>\<open>*Device\<close> argument is a \<open>Device option\<close>, \<open>None\<close> the nil pointer. One call reads
  the clock as \<open>now\<close> throughout. \<^verbatim>\<open>ChildCount\<close> is an unbounded integer here (the
  source's \<^verbatim>\<open>int\<close> would wrap only after \<open>2^63\<close> increments).
\<close>

definition validStatuses :: "string \<Rightarrow> bool" where
  "validStatuses s = (s = ''ACTIVATED'' \<or> s = ''DEACTIVATED'' \<or> s = ''PENDING'')"

definition validateDevice :: "Device option \<Rightarrow> error option" where
  "validateDevice device =
     (case device of
        None \<Rightarrow> Some (ErrorString ''device is required'')
      | Some d \<Rightarrow>
          (if GUID d = [] then Some (ErrorString ''device GUID is required'')
           else if Platform d \<noteq> ''ANDROID'' \<and> Platform d \<noteq> ''IOS''
             then Some (ErrorString (''invalid platform: '' @ Platform d))
           else if validStatuses (ActivationStatus d) then None
           else Some (ErrorString (''invalid activation status: '' @ ActivationStatus d))))"

text \<open>\<^verbatim>\<open>CreateDevice\<close> returns its error (if any) together with the table it leaves: the
  child's write stays even when the parent's update fails.\<close>

definition CreateDevice ::
  "codec \<Rightarrow> bool \<Rightarrow> time \<Rightarrow> Device option \<Rightarrow> db \<Rightarrow> error option \<times> db" where
  "CreateDevice J ctx_done now device t =
     (case validateDevice device of
        Some e \<Rightarrow> (Some (Wrap ''validating device'' e), t)
      | None \<Rightarrow>
          (case device of
             None \<Rightarrow> (Some (Wrap ''validating device'' (ErrorString ''device is required'')), t)
           | Some d \<Rightarrow>
               (case Save J ctx_done now d t of
                  Inl e \<Rightarrow> (Some (Wrap ''saving device'' e), t)
                | Inr t1 \<Rightarrow>
                    (if ParentDeviceGUID d \<noteq> [] then
                       (case Get J ctx_done (ParentDeviceGUID d) t1 of
                          Inr parent \<Rightarrow>
                            (case Update J ctx_done now
                                    (parent\<lparr>ChildCount := ChildCount parent + 1\<rparr>) t1 of
                               Inl e \<Rightarrow>
                                 (Some (Wrap ''device saved but failed to update parent count'' e),
                                  t1)
                             | Inr t2 \<Rightarrow> (None, t2))
                        | Inl e \<Rightarrow> (None, t1))
                     else (None, t1)))))"

record Statistics =
  TotalDevices :: int
  ActiveDevices :: int
  AndroidDevices :: int
  IOSDevices :: int
  ParentDevices :: int
  ChildDevices :: int
  StatsLastUpdated :: time
  VulnerableDevices :: int

definition tally :: "time \<Rightarrow> Statistics \<Rightarrow> Device \<Rightarrow> Statistics" where
  "tally now stats device =
     stats\<lparr>ActiveDevices :=
             (if ActivationStatus device = ''ACTIVATED'' then ActiveDevices stats + 1
              else ActiveDevices stats),
           AndroidDevices :=
             (if Platform device = ''ANDROID'' then AndroidDevices stats + 1
              else AndroidDevices stats),
           IOSDevices :=
             (if Platform device = ''IOS'' then IOSDevices stats + 1 else IOSDevices stats),
           ParentDevices :=
             (if ParentDeviceGUID device = [] then ParentDevices stats + 1
              else ParentDevices stats),
           ChildDevices :=
             (if ParentDeviceGUID device = [] then ChildDevices stats
              else ChildDevices stats + 1),
           VulnerableDevices :=
             (if isVulnerable now device then VulnerableDevices stats + 1
              else VulnerableDevices stats)\<rparr>"

definition GetDeviceStatistics :: "codec \<Rightarrow> bool \<Rightarrow> time \<Rightarrow> db \<Rightarrow> error + Statistics" where
  "GetDeviceStatistics J ctx_done now t =
     (case List J ctx_done t of
        Inl e \<Rightarrow> Inl (Wrap ''listing devices'' e)
      | Inr devices \<Rightarrow>
          Inr (foldl (tally now)
                 \<lparr>TotalDevices = int (length devices), ActiveDevices = 0, AndroidDevices = 0,
                  IOSDevices = 0, ParentDevices = 0, ChildDevices = 0,
                  StatsLastUpdated = now, VulnerableDevices = 0\<rparr>
                 devices))"

section \<open>Analyzer: the analysis pass\<close>

record SecurityStats =
  StatsRiskLevel :: RiskLevel
  StatsCount :: int
  Description :: string
  AffectedDevices :: "string list"

definition initSecurityStats :: "RiskLevel \<Rightarrow> SecurityStats" where
  "initSecurityStats r =
     \<lparr>StatsRiskLevel = r, StatsCount = 0,
      Description =
        (case r of
           RiskHigh \<Rightarrow> ''High risk devices requiring immediate attention''
         | RiskMedium \<Rightarrow> ''Medium risk devices requiring monitoring''
         | RiskLow \<Rightarrow> ''Low risk devices meeting security requirements''),
      AffectedDevices = []\<rparr>"

text \<open>\<^verbatim>\<open>m[k]++\<close> on a \<^verbatim>\<open>map[string]int\<close>.\<close>

definition incr :: "(string \<times> int) list \<Rightarrow> string \<Rightarrow> (string \<times> int) list" where
  "incr m k =
     (case map_of m k of
        None \<Rightarrow> m @ [(k, 1)]
      | Some n \<Rightarrow> map (\<lambda>(k', n'). if k' = k then (k', n' + 1) else (k', n')) m)"

definition record_risk ::
  "RiskLevel \<Rightarrow> string \<Rightarrow> (RiskLevel \<Rightarrow> SecurityStats) \<Rightarrow> (RiskLevel \<Rightarrow> SecurityStats)" where
  "record_risk risk deviceID stats =
     stats(risk := (stats risk)\<lparr>StatsCount := StatsCount (stats risk) + 1,
                                 AffectedDevices := AffectedDevices (stats risk) @ [deviceID]\<rparr>)"

record tallies =
  secAndroid :: "RiskLevel \<Rightarrow> SecurityStats"
  secIOS :: "RiskLevel \<Rightarrow> SecurityStats"
  androidPatches :: "(string \<times> int) list"
  iosVersions :: "(string \<times> int) list"

text \<open>The loop over the devices. The label \<^verbatim>\<open>d.GUID[:8]\<close> is computed for every device,
  before the platform is looked at; slicing a string shorter than 8 bytes panics
  (\<open>None\<close>).\<close>

fun analyze_loop :: "time \<Rightarrow> Device list \<Rightarrow> tallies \<Rightarrow> tallies option" where
  "analyze_loop now [] acc = Some acc"
| "analyze_loop now (d # ds) acc =
     (if length (GUID d) < 8 then None
      else analyze_loop now ds
        (if Platform d = ''ANDROID'' then
           (if SecurityPatchLevel (Software d) \<noteq> [] then
              acc\<lparr>androidPatches := incr (androidPatches acc) (SecurityPatchLevel (Software d)),
                  secAndroid :=
                    record_risk (analyzeAndroidRisk now (SecurityPatchLevel (Software d)))
                      (take 8 (GUID d) @ '' ('' @ Platform d @ '')'') (secAndroid acc)\<rparr>
            else acc)
         else if Platform d = ''IOS'' then
           (if OSVersion (Software d) \<noteq> [] then
              acc\<lparr>iosVersions := incr (iosVersions acc) (OSVersion (Software d)),
                  secIOS :=
                    record_risk (analyzeIOSRisk (OSVersion (Software d)))
                      (take 8 (GUID d) @ '' ('' @ Platform d @ '')'') (secIOS acc)\<rparr>
            else acc)
         else acc))"

text \<open>The update-pattern functions (calendar arithmetic and \<^verbatim>\<open>float64\<close> averages; they
  neither fail nor panic) are parameters \<open>upA\<close> and \<open>upI\<close>.\<close>

record 'u Analysis =
  SecurityStatsAndroid :: "RiskLevel \<Rightarrow> SecurityStats"
  SecurityStatsIOS :: "RiskLevel \<Rightarrow> SecurityStats"
  UpdatePatternsAndroid :: "'u option"
  UpdatePatternsIOS :: "'u option"
  VersionDistributionAndroid :: "VersionDistribution list"
  VersionDistributionIOS :: "VersionDistribution list"
  Timestamp :: time

definition AnalyzeDevices ::
  "((string \<times> int) list \<Rightarrow> 'u option) \<Rightarrow> ((string \<times> int) list \<Rightarrow> 'u option)
   \<Rightarrow> codec \<Rightarrow> bool \<Rightarrow> time \<Rightarrow> db \<Rightarrow> 'u Analysis outcome" where
  "AnalyzeDevices upA upI J ctx_done now t =
     (case List J ctx_done t of
        Inl e \<Rightarrow> Fails (Wrap ''listing devices'' e)
      | Inr devices \<Rightarrow>
          (case analyze_loop now devices
                  \<lparr>secAndroid = initSecurityStats, secIOS = initSecurityStats,
                   androidPatches = [], iosVersions = []\<rparr> of
             None \<Rightarrow> Panics
           | Some acc \<Rightarrow>
               Returns
                 \<lparr>SecurityStatsAndroid = secAndroid acc,
                  SecurityStatsIOS = secIOS acc,
                  UpdatePatternsAndroid =
                    (if androidPatches acc \<noteq> [] then upA (androidPatches acc) else None),
                  UpdatePatternsIOS =
                    (if iosVersions acc \<noteq> [] then upI (iosVersions acc) else None),
                  VersionDistributionAndroid =
                    analyzeAndroidVersionDistribution now (androidPatches acc),
                  VersionDistributionIOS = analyzeIOSVersionDistribution (iosVersions acc),
                  Timestamp = now\<rparr>))"

section \<open>The API client\<close>

text \<open>
  The network is a parameter: \<open>Do E n req\<close> is what \<^verbatim>\<open>httpClient.Do\<close> returns for the
  request \<open>req\<close> when \<open>n\<close> requests were sent before it (so a server may answer the same
  request differently each time); \<open>validURL\<close> says whether \<^verbatim>\<open>http.NewRequestWithContext\<close>
  accepts the URL; the decoders are \<^verbatim>\<open>json.NewDecoder(resp.Body).Decode\<close> at the three
  response types. What one call does to the outside is a trace of events: requests sent
  and sleeps. The context is done or not for the whole of one call, and one call reads the
  clock as \<open>now\<close>.
\<close>

record Client =
  baseURL :: string
  applicationKey :: string
  accessToken :: string
  tokenExpiry :: time
  maxRetries :: int
  retryDelay :: duration

record Request =
  Method :: string
  URL :: string
  Authorization :: string

datatype http_result = TransportFailure | Response int string

datatype event = Sent Request | Slept duration

record APIDevice =
  apiGUID :: string
  apiOID :: string
  apiParentDeviceGUID :: string
  apiActivationStatus :: string
  apiPlatform :: string
  apiSoftware :: Software

record DevicesResponse =
  RespCount :: int
  Devices :: "APIDevice list"

record 'v net =
  Do :: "nat \<Rightarrow> Request \<Rightarrow> http_result"
  validURL :: "string \<Rightarrow> bool"
  decodeToken :: "string \<Rightarrow> (string \<times> int) option"
  decodeDevices :: "string \<Rightarrow> DevicesResponse option"
  decodeVulns :: "string \<Rightarrow> 'v option"

fun is_Sent :: "event \<Rightarrow> bool" where
  "is_Sent (Sent r) = True"
| "is_Sent (Slept d) = False"

definition sent_count :: "event list \<Rightarrow> nat" where
  "sent_count trace = length (filter is_Sent trace)"

definition Second :: duration where
  "Second = 1000000000"

text \<open>\<^verbatim>\<open>ensureValidToken\<close>: the error (if any), the client with its token fields, the
  trace.\<close>

definition ensureValidToken ::
  "'v net \<Rightarrow> time \<Rightarrow> Client \<Rightarrow> event list \<Rightarrow> error option \<times> Client \<times> event list" where
  "ensureValidToken E now c trace =
     (if accessToken c \<noteq> [] \<and> now < tokenExpiry c then (None, c, trace)
      else if \<not> validURL E (baseURL c @ ''/oauth2/token'')
        then (Some (Wrap ''creating token request'' (ErrorString ''invalid URL'')), c, trace)
      else
        (case Do E (sent_count trace)
                \<lparr>Method = ''POST'', URL = baseURL c @ ''/oauth2/token'',
                 Authorization = ''Bearer '' @ applicationKey c\<rparr> of
           TransportFailure \<Rightarrow>
             (Some (Wrap ''requesting token'' TransportError), c,
              trace @ [Sent \<lparr>Method = ''POST'', URL = baseURL c @ ''/oauth2/token'',
                             Authorization = ''Bearer '' @ applicationKey c\<rparr>])
         | Response status body \<Rightarrow>
             (if status \<noteq> 200
              then (Some (APIError status (''token request failed: '' @ body) None), c,
                    trace @ [Sent \<lparr>Method = ''POST'', URL = baseURL c @ ''/oauth2/token'',
                                   Authorization = ''Bearer '' @ applicationKey c\<rparr>])
              else
                (case decodeToken E body of
                   None \<Rightarrow>
                     (Some (Wrap ''decoding token response'' JSONError), c,
                      trace @ [Sent \<lparr>Method = ''POST'', URL = baseURL c @ ''/oauth2/token'',
                                     Authorization = ''Bearer '' @ applicationKey c\<rparr>])
                 | Some (token, expiresIn) \<Rightarrow>
                     (None,
                      c\<lparr>accessToken := token, tokenExpiry := now + expiresIn * Second\<rparr>,
                      trace @ [Sent \<lparr>Method = ''POST'', URL = baseURL c @ ''/oauth2/token'',
                                     Authorization = ''Bearer '' @ applicationKey c\<rparr>])))))"

definition with_sleep :: "Client \<Rightarrow> int \<Rightarrow> event list \<Rightarrow> event list" where
  "with_sleep c attempt trace =
     (if attempt > 0 then trace @ [Slept (retryDelay c)] else trace)"

definition mkRequest :: "Client \<Rightarrow> string \<Rightarrow> string \<Rightarrow> Request" where
  "mkRequest c method url =
     \<lparr>Method = method, URL = url, Authorization = ''Bearer '' @ accessToken c\<rparr>"

text \<open>
  The retry loop of \<^verbatim>\<open>doRequest\<close>, from \<open>attempt\<close> on. The result is the error, or the
  response (status, body), or \<open>Inr None\<close> for the \<^verbatim>\<open>(nil, nil)\<close> that the statement after
  the loop returns when the loop body never ran.
\<close>

function doRequest_loop ::
  "'v net \<Rightarrow> Client \<Rightarrow> bool \<Rightarrow> string \<Rightarrow> string \<Rightarrow> int \<Rightarrow> event list
   \<Rightarrow> (error + (int \<times> string) option) \<times> event list" where
  "doRequest_loop E c ctx_done method url attempt trace =
     (if attempt > maxRetries c then (Inr None, trace)
      else if ctx_done then (Inl Canceled, trace)
      else if \<not> validURL E url
        then (Inl (Wrap ''creating request'' (ErrorString ''invalid URL'')),
              with_sleep c attempt trace)
      else
        (case Do E (sent_count (with_sleep c attempt trace)) (mkRequest c method url) of
           TransportFailure \<Rightarrow>
             (if attempt = maxRetries c
              then (Inl (Wrap ''request failed after retries'' TransportError),
                    with_sleep c attempt trace @ [Sent (mkRequest c method url)])
              else doRequest_loop E c ctx_done method url (attempt + 1)
                     (with_sleep c attempt trace @ [Sent (mkRequest c method url)]))
         | Response status body \<Rightarrow>
             (if status = 429 then
                (if attempt = maxRetries c
                 then (Inl (APIError status ''rate limit exceeded'' None),
                       with_sleep c attempt trace @ [Sent (mkRequest c method url)])
                 else doRequest_loop E c ctx_done method url (attempt + 1)
                        (with_sleep c attempt trace @ [Sent (mkRequest c method url)]))
              else if status \<ge> 400
                then (Inl (APIError status (''API request failed: '' @ body) (Some body)),
                      with_sleep c attempt trace @ [Sent (mkRequest c method url)])
              else (Inr (Some (status, body)),
                    with_sleep c attempt trace @ [Sent (mkRequest c method url)]))))"
  by pat_completeness auto
termination
  by (relation "measure (\<lambda>(E, c, ctx_done, method, url, attempt, trace).
                           nat (maxRetries c + 1 - attempt))") auto

definition doRequest ::
  "'v net \<Rightarrow> time \<Rightarrow> bool \<Rightarrow> Client \<Rightarrow> string \<Rightarrow> string \<Rightarrow> event list
   \<Rightarrow> (error + (int \<times> string) option) \<times> Client \<times> event list" where
  "doRequest E now ctx_done c method path trace =
     (case ensureValidToken E now c trace of
        (Some e, c', trace') \<Rightarrow> (Inl (Wrap ''ensuring valid token'' e), c', trace')
      | (None, c', trace') \<Rightarrow>
          (case doRequest_loop E c' ctx_done method (baseURL c' @ path) 0 trace' of
             (r, trace'') \<Rightarrow> (r, c', trace'')))"

text \<open>\<^verbatim>\<open>fmt.Sprintf("%d", n)\<close>.\<close>

fun dec_nat :: "nat \<Rightarrow> string" where
  "dec_nat n =
     (if n < 10 then [char_of (48 + n)]
      else dec_nat (n div 10) @ [char_of (48 + n mod 10)])"

definition dec_int :: "int \<Rightarrow> string" where
  "dec_int i = (if i < 0 then CHR ''-'' # dec_nat (nat (- i)) else dec_nat (nat i))"

text \<open>A nil response with a nil error makes the deferred \<^verbatim>\<open>resp.Body.Close()\<close> panic.\<close>

definition GetDevices ::
  "'v net \<Rightarrow> time \<Rightarrow> bool \<Rightarrow> Client \<Rightarrow> string \<Rightarrow> int \<Rightarrow> event list
   \<Rightarrow> DevicesResponse outcome \<times> Client \<times> event list" where
  "GetDevices E now ctx_done c lastOID limit trace =
     (case doRequest E now ctx_done c ''GET''
             (''/mra/api/v2/devices?limit='' @ dec_int limit
                @ (if lastOID \<noteq> [] then ''&oid='' @ lastOID else []))
             trace of
        (Inl e, c', trace') \<Rightarrow> (Fails (Wrap ''getting devices'' e), c', trace')
      | (Inr None, c', trace') \<Rightarrow> (Panics, c', trace')
      | (Inr (Some (status, body)), c', trace') \<Rightarrow>
          (case decodeDevices E body of
             None \<Rightarrow> (Fails (Wrap ''decoding devices response'' JSONError), c', trace')
           | Some devicesResp \<Rightarrow> (Returns devicesResp, c', trace')))"

text \<open>The part of \<^verbatim>\<open>GetVulnerabilities\<close> after the URL is chosen.\<close>

definition fetchVulns ::
  "'v net \<Rightarrow> time \<Rightarrow> bool \<Rightarrow> Client \<Rightarrow> string \<Rightarrow> event list
   \<Rightarrow> 'v outcome \<times> Client \<times> event list" where
  "fetchVulns E now ctx_done c url trace =
     (case doRequest E now ctx_done c ''GET'' url trace of
        (Inl e, c', trace') \<Rightarrow> (Fails (Wrap ''getting vulnerabilities'' e), c', trace')
      | (Inr None, c', trace') \<Rightarrow> (Panics, c', trace')
      | (Inr (Some (status, body)), c', trace') \<Rightarrow>
          (case decodeVulns E body of
             None \<Rightarrow>
               (Fails (Wrap ''decoding vulnerabilities response'' JSONError), c', trace')
           | Some vulnsResp \<Rightarrow> (Returns vulnsResp, c', trace')))"

definition GetVulnerabilities ::
  "'v net \<Rightarrow> time \<Rightarrow> bool \<Rightarrow> Client \<Rightarrow> string \<Rightarrow> string \<Rightarrow> event list
   \<Rightarrow> 'v outcome \<times> Client \<times> event list" where
  "GetVulnerabilities E now ctx_done c platform version trace =
     (if version = []
        then (Fails (ValidationError ''version'' version ''version is required''), c, trace)
      else if platform = ''ANDROID'' then
        (if CHR ''-'' \<in> set version
         then fetchVulns E now ctx_done c (''/mra/api/v2/os-vulns/android?aspl='' @ version)
                trace
         else (Fails (ValidationError ''version'' version
                        ''invalid security patch level format''), c, trace))
      else if platform = ''IOS''
        then fetchVulns E now ctx_done c (''/mra/api/v2/os-vulns/ios?version='' @ version) trace
      else (Fails (ValidationError ''platform'' platform ''invalid platform''), c, trace))"

section \<open>The synchronisation loop\<close>

text \<open>
  \<^verbatim>\<open>processDevices\<close>, up to the end of its loop (the analysis it prints afterwards is
  \<open>AnalyzeDevices\<close>). Two things are parameters. \<open>fetch a cursor limit\<close> is
  \<^verbatim>\<open>apiClient.GetDevices(ctx, cursor, limit)\<close> in the state \<open>a\<close> of client and server, and
  returns the new state. \<open>process s page\<close> is the worker pool on one page in the state \<open>s\<close>
  of the store: it returns the error the loop reads from the channel (if any) and the new
  state. Which worker finishes first is not modelled; \<open>process_page\<close> below is the schedule
  that takes the devices in page order. \<open>ctx n\<close> says whether the context is done when the
  loop begins its iteration number \<open>n\<close>. The counters are unbounded integers.
\<close>

record ('a, 's) run =
  result :: "unit outcome"
  lastOID :: string
  processedCount :: int
  fetched :: "string list"
  pages :: "nat list"
  api :: 'a
  store :: 's

function processLoop ::
  "('a \<Rightarrow> string \<Rightarrow> int \<Rightarrow> DevicesResponse outcome \<times> 'a)
   \<Rightarrow> ('s \<Rightarrow> APIDevice list \<Rightarrow> error option \<times> 's)
   \<Rightarrow> (nat \<Rightarrow> bool) \<Rightarrow> int \<Rightarrow> int \<Rightarrow> ('a, 's) run \<Rightarrow> ('a, 's) run" where
  "processLoop fetch process ctx batchSize totalDevices r =
     (if ctx (length (fetched r)) then r\<lparr>result := Fails Canceled\<rparr>
      else
        (case fetch (api r) (lastOID r) batchSize of
           (Fails e, a') \<Rightarrow>
             r\<lparr>result := Fails (Wrap ''getting devices'' e),
               fetched := fetched r @ [lastOID r], api := a'\<rparr>
         | (Panics, a') \<Rightarrow>
             r\<lparr>result := Panics, fetched := fetched r @ [lastOID r], api := a'\<rparr>
         | (Returns devicesResp, a') \<Rightarrow>
             (if Devices devicesResp = [] \<or> processedCount r \<ge> totalDevices
              then r\<lparr>fetched := fetched r @ [lastOID r], api := a'\<rparr>
              else
                (case process (store r) (Devices devicesResp) of
                   (Some e, s') \<Rightarrow>
                     r\<lparr>result := Fails e, fetched := fetched r @ [lastOID r],
                       api := a', store := s'\<rparr>
                 | (None, s') \<Rightarrow>
                     processLoop fetch process ctx batchSize totalDevices
                       (r\<lparr>lastOID := apiOID (last (Devices devicesResp)),
                          processedCount :=
                            processedCount r + int (length (Devices devicesResp)),
                          fetched := fetched r @ [lastOID r],
                          pages := pages r @ [length (Devices devicesResp)],
                          api := a', store := s'\<rparr>)))))"
  by pat_completeness auto
termination
  by (relation "measure (\<lambda>(fetch, process, ctx, batchSize, totalDevices, r).
                           nat (totalDevices - processedCount r))") auto

text \<open>The probe of one item, then the loop. \<open>fetched\<close> lists the cursors of the loop's
  requests, in order; the probe is not among them. \<open>pages\<close> lists the sizes of the pages
  that were processed.\<close>

definition processDevices ::
  "('a \<Rightarrow> string \<Rightarrow> int \<Rightarrow> DevicesResponse outcome \<times> 'a)
   \<Rightarrow> ('s \<Rightarrow> APIDevice list \<Rightarrow> error option \<times> 's)
   \<Rightarrow> (nat \<Rightarrow> bool) \<Rightarrow> int \<Rightarrow> 'a \<Rightarrow> 's \<Rightarrow> ('a, 's) run" where
  "processDevices fetch process ctx batchSize a s =
     (case fetch a [] 1 of
        (Fails e, a') \<Rightarrow>
          \<lparr>result = Fails (Wrap ''getting total device count'' e), lastOID = [],
           processedCount = 0, fetched = [], pages = [], api = a', store = s\<rparr>
      | (Panics, a') \<Rightarrow>
          \<lparr>result = Panics, lastOID = [], processedCount = 0, fetched = [], pages = [],
           api = a', store = s\<rparr>
      | (Returns initialResp, a') \<Rightarrow>
          processLoop fetch process ctx batchSize (RespCount initialResp)
            \<lparr>result = Returns (), lastOID = [], processedCount = 0, fetched = [],
             pages = [], api = a', store = s\<rparr>)"

text \<open>The conversion of a wire record in the worker; \<^verbatim>\<open>ChildCount\<close> and \<^verbatim>\<open>LastUpdated\<close>
  keep their zero values (the zero \<^verbatim>\<open>time.Time\<close> is the first instant of year 1).\<close>

definition toDevice :: "APIDevice \<Rightarrow> Device" where
  "toDevice d =
     \<lparr>GUID = apiGUID d, OID = apiOID d, ParentDeviceGUID = apiParentDeviceGUID d,
      ActivationStatus = apiActivationStatus d, Platform = apiPlatform d,
      Software = \<lparr>SecurityPatchLevel = SecurityPatchLevel (apiSoftware d),
                   OSVersion = OSVersion (apiSoftware d)\<rparr>,
      ChildCount = 0, LastUpdated = time_Date 1 1 1\<rparr>"

text \<open>One page, its devices taken in order. Every worker is started before the first
  result is read, so every device is processed; the error kept is the first.\<close>

fun process_page ::
  "codec \<Rightarrow> bool \<Rightarrow> time \<Rightarrow> db \<Rightarrow> APIDevice list \<Rightarrow> error option \<times> db" where
  "process_page J ctx_done now t [] = (None, t)"
| "process_page J ctx_done now t (d # ds) =
     (case CreateDevice J ctx_done now (Some (toDevice d)) t of
        (None, t') \<Rightarrow> process_page J ctx_done now t' ds
      | (Some e, t') \<Rightarrow>
          (Some (Wrap (''processing device '' @ apiGUID d) e),
           snd (process_page J ctx_done now t' ds)))"

section \<open>Concrete inputs\<close>

text \<open>Two devices, a child \<open>dev_c\<close> of \<open>dev_p\<close>, a device \<open>dev_s\<close> with the guid of \<open>dev_p\<close>
  that names itself as its parent, and a codec that knows their encodings at a few clock
  readings and nothing else.\<close>

definition dev_p :: Device where
  "dev_p = \<lparr>GUID = ''parent-0001'', OID = ''1'', ParentDeviceGUID = [],
            ActivationStatus = ''ACTIVATED'', Platform = ''ANDROID'',
            Software = \<lparr>SecurityPatchLevel = ''2023-01-01'', OSVersion = []\<rparr>,
            ChildCount = 0, LastUpdated = 0\<rparr>"

definition dev_c :: Device where
  "dev_c = \<lparr>GUID = ''child'', OID = ''2'', ParentDeviceGUID = ''parent-0001'',
            ActivationStatus = ''PENDING'', Platform = ''IOS'',
            Software = \<lparr>SecurityPatchLevel = [], OSVersion = ''14''\<rparr>,
            ChildCount = 0, LastUpdated = 0\<rparr>"

definition dev_s :: Device where
  "dev_s = \<lparr>GUID = ''parent-0001'', OID = ''1'', ParentDeviceGUID = ''parent-0001'',
            ActivationStatus = ''ACTIVATED'', Platform = ''ANDROID'',
            Software = \<lparr>SecurityPatchLevel = ''2023-01-01'', OSVersion = []\<rparr>,
            ChildCount = 0, LastUpdated = 0\<rparr>"

definition J0 :: codec where
  "J0 = \<lparr>Marshal =
            (\<lambda>d. if d = dev_c\<lparr>LastUpdated := 5\<rparr> then Some ''C5''
                 else if d = dev_p\<lparr>LastUpdated := 9\<rparr> then Some ''P9''
                 else if d = dev_p\<lparr>LastUpdated := 3\<rparr> then Some ''P3''
                 else if d = dev_p\<lparr>ChildCount := 1, LastUpdated := 5\<rparr> then Some ''Q5''
                 else if d = dev_s\<lparr>LastUpdated := 9\<rparr> then Some ''S9''
                 else if d = dev_s\<lparr>ChildCount := 1, LastUpdated := 9\<rparr> then Some ''T9''
                 else None),
          Unmarshal =
            (\<lambda>s. if s = ''C5'' then Some (dev_c\<lparr>LastUpdated := 5\<rparr>)
                 else if s = ''P9'' then Some (dev_p\<lparr>LastUpdated := 9\<rparr>)
                 else if s = ''P3'' then Some (dev_p\<lparr>LastUpdated := 3\<rparr>)
                 else if s = ''Q5'' then Some (dev_p\<lparr>ChildCount := 1, LastUpdated := 5\<rparr>)
                 else if s = ''S9'' then Some (dev_s\<lparr>LastUpdated := 9\<rparr>)
                 else if s = ''T9'' then Some (dev_s\<lparr>ChildCount := 1, LastUpdated := 9\<rparr>)
                 else None)\<rparr>"

section \<open>Properties: risk classification\<close>

lemma pos_div_ge:
  assumes "0 < (b::int)"
  shows "(k \<le> a div b) = (k * b \<le> a)"
proof
  assume "k \<le> a div b"
  then have "k * b \<le> (a div b) * b" using assms by (simp add: mult_right_mono)
  also have "\<dots> \<le> a" using assms
    by (metis add.commute add_0 add_le_cancel_right div_mult_mod_eq pos_mod_sign)
  finally show "k * b \<le> a" .
next
  assume "k * b \<le> a"
  then have "(k * b) div b \<le> a div b" using assms by (rule zdiv_mono1)
  then show "k \<le> a div b" using assms by simp
qed

lemma trunc_div_ge:
  assumes "0 < b" and "0 < k"
  shows "(k \<le> trunc_div a b) = (k * b \<le> a)"
proof (cases "a < 0")
  case True
  have "0 \<le> (- a) div b" using True assms by (simp add: pos_imp_zdiv_nonneg_iff)
  then have "\<not> k \<le> trunc_div a b" using True assms by (simp add: trunc_div_def)
  moreover have "0 < k * b" using assms by simp
  then have "\<not> k * b \<le> a" using True by linarith
  ultimately show ?thesis by simp
next
  case False
  then show ?thesis using assms by (simp add: trunc_div_def pos_div_ge)
qed

lemma time_Sub_ge:
  assumes "0 < c" and "c \<le> maxDuration"
  shows "(c \<le> time_Sub now t) = (c \<le> now - t)"
  using assms unfolding time_Sub_def maxDuration_def minDuration_def
  by auto

lemma time_Sub_range: "- (2 ^ 63) \<le> time_Sub now t" "time_Sub now t \<le> 2 ^ 63"
  unfolding time_Sub_def maxDuration_def minDuration_def by auto

subsection \<open>Rounding to binary64 is monotone\<close>

lemma rne_bounds: "of_int (rne x) \<le> x + 1 / 2" "x - 1 / 2 \<le> of_int (rne x)"
  unfolding rne_def Let_def by (auto; linarith)+

lemma rne_of_int: "rne (of_int n) = n"
  by (simp add: rne_def)

lemma rne_mono:
  assumes "x \<le> y"
  shows "rne x \<le> rne y"
proof (rule ccontr)
  assume "\<not> rne x \<le> rne y"
  then have "rne y + 1 \<le> rne x" by simp
  then have "(of_int (rne y) :: rat) + 1 \<le> of_int (rne x)"
    by (metis of_int_1 of_int_add of_int_le_iff)
  with rne_bounds(1) [of x] rne_bounds(2) [of y] assms
  have "x = y" by linarith
  with \<open>\<not> rne x \<le> rne y\<close> show False by simp
qed

lemma binade_bounds:
  assumes "0 < x"
  shows "2 powi (binade x) \<le> x" and "x < 2 powi (binade x + 1)"
proof -
  have "2 powi (binade x) \<le> x \<and> x < 2 powi (binade x + 1)"
  proof (cases "1 \<le> x")
    case True
    define n where "n = \<lfloor>x\<rfloor>"
    have n: "0 < n" using True by (simp add: n_def)
    have b: "binade x = bitlen n - 1" using True by (simp add: binade_def n_def)
    have k: "1 \<le> bitlen n" using n bitlen_eq_zero_iff [of n] bitlen_nonneg [of n] by linarith
    from bitlen_bounds [OF n]
    have lo: "2 ^ nat (bitlen n - 1) \<le> n" and hi: "n < 2 ^ nat (bitlen n)" by simp_all
    have "(2::rat) powi (bitlen n - 1) = of_int (2 ^ nat (bitlen n - 1))"
      using k by (simp add: power_int_def)
    also have "\<dots> \<le> of_int n" using lo by (simp only: of_int_le_iff)
    also have "\<dots> \<le> x" by (simp add: n_def)
    finally have 1: "2 powi (binade x) \<le> x" by (simp add: b)
    have "n + 1 \<le> 2 ^ nat (bitlen n)" using hi by simp
    then have "(of_int (n + 1) :: rat) \<le> of_int (2 ^ nat (bitlen n))"
      by (simp only: of_int_le_iff)
    moreover have "x < of_int (n + 1)" using floor_correct [of x] by (simp add: n_def)
    moreover have "(2::rat) powi (bitlen n) = of_int (2 ^ nat (bitlen n))"
      using k by (simp add: power_int_def)
    ultimately have "x < 2 powi (binade x + 1)" by (simp add: b)
    with 1 show ?thesis by simp
  next
    case False
    define m where "m = \<lceil>1 / x\<rceil>"
    define k where "k = bitlen (m - 1)"
    have x1: "1 < 1 / x" using False assms by simp
    then have m2: "2 \<le> m" unfolding m_def by (simp add: le_ceiling_iff)
    then have m1: "0 < m - 1" by simp
    have b: "binade x = - k" using False by (simp add: binade_def m_def k_def)
    have k1: "1 \<le> k"
      using m1 bitlen_eq_zero_iff [of "m - 1"] bitlen_nonneg [of "m - 1"] unfolding k_def
      by linarith
    from bitlen_bounds [OF m1]
    have lo: "2 ^ nat (k - 1) \<le> m - 1" and hi: "m - 1 < 2 ^ nat k" by (simp_all add: k_def)
    have "1 / x \<le> of_int m" by (simp add: m_def)
    also have "(of_int m :: rat) \<le> of_int (2 ^ nat k)"
    proof -
      have "m \<le> 2 ^ nat k" using hi by simp
      then show ?thesis by (simp only: of_int_le_iff)
    qed
    finally have "1 / x \<le> 2 ^ nat k" by simp
    then have "1 \<le> 2 ^ nat k * x" using assms by (simp add: field_simps)
    then have "1 / 2 ^ nat k \<le> x" by (simp add: field_simps)
    moreover have "(2::rat) powi (- k) = 1 / 2 ^ nat k"
      using k1 by (simp add: power_int_def field_simps)
    ultimately have 1: "2 powi (binade x) \<le> x" by (simp add: b)
    have "(of_int (2 ^ nat (k - 1)) :: rat) \<le> of_int (m - 1)" using lo by (simp only: of_int_le_iff)
    moreover have "of_int (m - 1) < 1 / x" using ceiling_correct [of "1 / x"] by (simp add: m_def)
    ultimately have "2 ^ nat (k - 1) < 1 / x" by simp
    then have "2 ^ nat (k - 1) * x < 1" using assms by (simp add: field_simps)
    then have "x < 1 / 2 ^ nat (k - 1)" by (simp add: field_simps)
    moreover have "(2::rat) powi (- k + 1) = 1 / 2 ^ nat (k - 1)"
    proof (cases "k = 1")
      case True
      then show ?thesis by simp
    next
      case False
      then have "- k + 1 < 0" using k1 by simp
      then show ?thesis by (simp add: power_int_def field_simps)
    qed
    ultimately have "x < 2 powi (binade x + 1)" by (simp add: b)
    with 1 show ?thesis by simp
  qed
  then show "2 powi (binade x) \<le> x" and "x < 2 powi (binade x + 1)" by simp_all
qed

lemma float64_pos:
  assumes "0 < x"
  shows "float64 x = of_int (rne (x / 2 powi (binade x - 52))) * 2 powi (binade x - 52)"
  using assms by (simp add: float64_def Let_def)

lemma binade_scale:
  "(2::rat) powi e = 2 ^ 52 * 2 powi (e - 52)" "(2::rat) powi (e + 1) = 2 ^ 53 * 2 powi (e - 52)"
proof -
  have "(2::rat) powi e = 2 powi (52 + (e - 52))" by simp
  also have "\<dots> = 2 powi 52 * 2 powi (e - 52)" by (rule power_int_add) simp
  finally show "(2::rat) powi e = 2 ^ 52 * 2 powi (e - 52)" by simp
  have "e + 1 = 53 + (e - 52)" by simp
  then have "(2::rat) powi (e + 1) = 2 powi (53 + (e - 52))" by (simp only:)
  also have "\<dots> = 2 powi 53 * 2 powi (e - 52)" by (rule power_int_add) simp
  finally show "(2::rat) powi (e + 1) = 2 ^ 53 * 2 powi (e - 52)" by simp
qed

lemma float64_pos_bounds:
  assumes "0 < x"
  shows "2 powi (binade x) \<le> float64 x" and "float64 x \<le> 2 powi (binade x + 1)"
proof -
  define u where "u = (2::rat) powi (binade x - 52)"
  have u: "0 < u" by (simp add: u_def)
  have f: "float64 x = of_int (rne (x / u)) * u" using assms by (simp add: float64_pos u_def)
  have "2 ^ 52 * u \<le> x" using binade_bounds(1) [OF assms] binade_scale(1) [of "binade x"]
    by (simp add: u_def)
  then have "of_int (2 ^ 52) \<le> x / u" using u by (simp add: field_simps)
  then have "rne (of_int (2 ^ 52)) \<le> rne (x / u)" by (rule rne_mono)
  then have "2 ^ 52 \<le> rne (x / u)" by (simp only: rne_of_int)
  then have "(of_int (2 ^ 52) :: rat) \<le> of_int (rne (x / u))" by (simp only: of_int_le_iff)
  then have "of_int (2 ^ 52) * u \<le> of_int (rne (x / u)) * u" using u by (simp only: mult_le_cancel_right_pos)
  then show "2 powi (binade x) \<le> float64 x"
    using binade_scale(1) [of "binade x"] by (simp add: f u_def)
  have "x < 2 ^ 53 * u" using binade_bounds(2) [OF assms] binade_scale(2) [of "binade x"]
    by (simp add: u_def)
  then have "x / u \<le> of_int (2 ^ 53)" using u by (simp add: field_simps)
  then have "rne (x / u) \<le> rne (of_int (2 ^ 53))" by (rule rne_mono)
  then have "rne (x / u) \<le> 2 ^ 53" by (simp only: rne_of_int)
  then have "(of_int (rne (x / u)) :: rat) \<le> of_int (2 ^ 53)" by (simp only: of_int_le_iff)
  then have "of_int (rne (x / u)) * u \<le> of_int (2 ^ 53) * u" using u by (simp only: mult_le_cancel_right_pos)
  then show "float64 x \<le> 2 powi (binade x + 1)"
    using binade_scale(2) [of "binade x"] by (simp add: f u_def)
qed

lemma float64_mono_pos:
  assumes "0 < x" and "x \<le> y"
  shows "float64 x \<le> float64 y"
proof -
  have y: "0 < y" using assms by simp
  consider "binade x = binade y" | "binade x < binade y" | "binade y < binade x" by linarith
  then show ?thesis
  proof cases
    case 1
    define u where "u = (2::rat) powi (binade y - 52)"
    have u: "0 < u" by (simp add: u_def)
    have "x / u \<le> y / u" using assms u by (simp add: divide_right_mono)
    then have "rne (x / u) \<le> rne (y / u)" by (rule rne_mono)
    then have "(of_int (rne (x / u)) :: rat) \<le> of_int (rne (y / u))" by (simp only: of_int_le_iff)
    then have "of_int (rne (x / u)) * u \<le> of_int (rne (y / u)) * u"
      using u by (simp only: mult_le_cancel_right_pos)
    then show ?thesis using assms(1) y 1 by (simp add: float64_pos u_def)
  next
    case 2
    have "float64 x \<le> 2 powi (binade x + 1)" by (rule float64_pos_bounds(2) [OF assms(1)])
    also have "\<dots> \<le> 2 powi (binade y)" using 2 by (intro power_int_increasing) simp_all
    also have "\<dots> \<le> float64 y" by (rule float64_pos_bounds(1) [OF y])
    finally show ?thesis .
  next
    case 3
    have "y < 2 powi (binade y + 1)" by (rule binade_bounds(2) [OF y])
    also have "\<dots> \<le> 2 powi (binade x)" using 3 by (intro power_int_increasing) simp_all
    also have "\<dots> \<le> x" by (rule binade_bounds(1) [OF assms(1)])
    finally show ?thesis using assms by simp
  qed
qed

lemma float64_minus: "float64 (- x) = - float64 x"
  by (simp add: float64_def Let_def)

lemma float64_zero: "float64 0 = 0"
  by (simp add: float64_def)

lemma float64_nonneg:
  assumes "0 \<le> x"
  shows "0 \<le> float64 x"
proof (cases "x = 0")
  case True
  then show ?thesis by (simp add: float64_zero)
next
  case False
  then have x: "0 < x" using assms by simp
  have "(0::rat) < 2 powi (binade x)" by simp
  also have "\<dots> \<le> float64 x" by (rule float64_pos_bounds(1) [OF x])
  finally show ?thesis by simp
qed

lemma float64_mono:
  assumes "x \<le> y"
  shows "float64 x \<le> float64 y"
proof -
  consider "0 < x" | "x \<le> 0" "0 \<le> y" | "y < 0" by linarith
  then show ?thesis
  proof cases
    case 1
    then show ?thesis using assms by (rule float64_mono_pos)
  next
    case 2
    have "float64 x = - float64 (- x)" by (simp add: float64_minus)
    also have "\<dots> \<le> 0" using float64_nonneg [of "- x"] 2 by simp
    also have "\<dots> \<le> float64 y" using 2 by (simp add: float64_nonneg)
    finally show ?thesis .
  next
    case 3
    then have "float64 (- y) \<le> float64 (- x)" using assms by (intro float64_mono_pos) simp_all
    then show ?thesis by (simp add: float64_minus)
  qed
qed

lemma float64_of_int_pos:
  assumes "0 < n" and "n < 2 ^ 53"
  shows "float64 (of_int n) = of_int n"
proof -
  define e where "e = binade (of_int n)"
  have n: "(0::rat) < of_int n" using assms by simp
  have "(2::rat) powi e \<le> of_int n" unfolding e_def by (rule binade_bounds(1) [OF n])
  also have "(of_int n :: rat) < of_int (2 ^ 53)" using assms(2) by (simp only: of_int_less_iff)
  finally have lt: "(2::rat) powi e < 2 ^ 53" by simp
  have e: "e < 53"
  proof (rule ccontr)
    assume "\<not> e < 53"
    then have "(2::rat) powi 53 \<le> 2 powi e" by (intro power_int_increasing) simp_all
    then show False using lt by simp
  qed
  define k where "k = nat (52 - e)"
  have u: "(2::rat) powi (e - 52) = 1 / 2 ^ k"
  proof (cases "e = 52")
    case True
    then show ?thesis by (simp add: k_def)
  next
    case False
    then have "e - 52 < 0" using e by simp
    moreover have "nat (52 - e) = nat (- (e - 52))" by simp
    ultimately show ?thesis unfolding k_def power_int_def by (simp add: field_simps)
  qed
  have "of_int n / (2::rat) powi (e - 52) = of_int (n * 2 ^ k)" by (simp add: u)
  then have "rne (of_int n / 2 powi (e - 52)) = n * 2 ^ k" by (simp only: rne_of_int)
  then show ?thesis using n by (simp add: float64_pos e_def [symmetric] u)
qed

lemma float64_of_int:
  assumes "\<bar>n\<bar> < 2 ^ 53"
  shows "float64 (of_int n) = of_int n"
proof -
  consider "0 < n" | "n = 0" | "n < 0" by linarith
  then show ?thesis
  proof cases
    case 1
    then show ?thesis using assms by (intro float64_of_int_pos) simp_all
  next
    case 2
    then show ?thesis by (simp add: float64_zero)
  next
    case 3
    then have "float64 (of_int (- n)) = of_int (- n)" using assms by (intro float64_of_int_pos) simp_all
    then show ?thesis by (simp add: float64_minus)
  qed
qed

lemma f64_to_int_mono:
  assumes "x \<le> y"
  shows "f64_to_int x \<le> f64_to_int y"
proof -
  consider "0 \<le> x" | "x < 0" "0 \<le> y" | "y < 0" by linarith
  then show ?thesis
  proof cases
    case 1
    then show ?thesis using assms by (simp add: f64_to_int_def floor_mono)
  next
    case 2
    then have a: "0 \<le> \<lfloor>- x\<rfloor>" and b: "0 \<le> \<lfloor>y\<rfloor>" by simp_all
    have "f64_to_int x = - \<lfloor>- x\<rfloor>" and "f64_to_int y = \<lfloor>y\<rfloor>"
      using 2 by (simp_all add: f64_to_int_def)
    then show ?thesis using a b by linarith
  next
    case 3
    then have a: "\<lfloor>- y\<rfloor> \<le> \<lfloor>- x\<rfloor>" using assms by (intro floor_mono) simp
    have "f64_to_int x = - \<lfloor>- x\<rfloor>" and "f64_to_int y = - \<lfloor>- y\<rfloor>"
      using 3 assms by (simp_all add: f64_to_int_def)
    then show ?thesis using a by linarith
  qed
qed

lemma f64_to_int_minus: "f64_to_int (- x) = - f64_to_int x"
  unfolding f64_to_int_def by (cases "x = 0") auto

lemma trunc_div_minus: "trunc_div (- a) b = - trunc_div a b"
  unfolding trunc_div_def by (cases "a = 0") auto

lemma trunc_rem_minus: "trunc_rem (- a) b = - trunc_rem a b"
  unfolding trunc_rem_def by (simp add: trunc_div_minus)

lemma Hours_minus: "Hours (- d) = - Hours d"
proof -
  have "- float64 (rat_of_int (trunc_div d Hour))
          - float64 (float64 (rat_of_int (trunc_rem d Hour)) / 3600000000000)
        = - (float64 (rat_of_int (trunc_div d Hour))
          + float64 (float64 (rat_of_int (trunc_rem d Hour)) / 3600000000000))" by simp
  then show ?thesis
    unfolding Hours_def Let_def trunc_div_minus trunc_rem_minus of_int_minus float64_minus
      minus_divide_left [symmetric]
    by (simp only: float64_minus add_uminus_conv_diff)
qed

lemma months_minus: "months_of (- d) = - months_of d"
  unfolding months_of_def Hours_minus minus_divide_left [symmetric] float64_minus f64_to_int_minus
  by (rule refl)

lemma hour_part_exact:
  assumes "0 \<le> d" and "d \<le> 2 ^ 63"
  shows "float64 (of_int (d div Hour)) = of_int (d div Hour)"
proof -
  have "d div Hour \<le> 2 ^ 63 div Hour" using assms(2) by (intro zdiv_mono1) (simp_all add: Hour_def)
  also have "\<dots> < 2 ^ 53" by (simp add: Hour_def)
  finally have "d div Hour < 2 ^ 53" .
  moreover have "0 \<le> d div Hour" using assms(1) by (simp add: Hour_def pos_imp_zdiv_nonneg_iff)
  ultimately show ?thesis by (intro float64_of_int) simp
qed

lemma nsec_part_mono:
  assumes "n \<le> n'"
  shows "float64 (float64 (of_int n) / 3600000000000)
           \<le> float64 (float64 (of_int n') / 3600000000000)"
proof -
  have "float64 (of_int n) \<le> float64 (of_int n')" using assms by (intro float64_mono) simp
  then have "float64 (of_int n) / 3600000000000 \<le> float64 (of_int n') / 3600000000000"
    by (simp add: divide_right_mono)
  then show ?thesis by (rule float64_mono)
qed

lemma nsec_part_range:
  assumes "0 \<le> n" and "n \<le> Hour"
  shows "0 \<le> float64 (float64 (of_int n) / 3600000000000)"
    and "float64 (float64 (of_int n) / 3600000000000) \<le> 1"
proof -
  have "float64 (float64 (of_int 0) / 3600000000000)
          \<le> float64 (float64 (of_int n) / 3600000000000)"
    using assms(1) by (rule nsec_part_mono)
  then show "0 \<le> float64 (float64 (of_int n) / 3600000000000)" by (simp add: float64_zero)
  have h: "float64 (of_int Hour) = of_int Hour" by (intro float64_of_int) (simp add: Hour_def)
  have o: "float64 (of_int 1) = of_int 1" by (intro float64_of_int) simp
  have "float64 (float64 (of_int n) / 3600000000000)
          \<le> float64 (float64 (of_int Hour) / 3600000000000)"
    using assms(2) by (rule nsec_part_mono)
  also have "\<dots> = 1" using o by (simp add: h) (simp add: Hour_def)
  finally show "float64 (float64 (of_int n) / 3600000000000) \<le> 1" .
qed

lemma Hours_mono_nonneg:
  assumes "0 \<le> d" and "d \<le> d'" and "d' \<le> 2 ^ 63"
  shows "Hours d \<le> Hours d'"
proof -
  have d': "0 \<le> d'" and d63: "d \<le> 2 ^ 63" using assms by simp_all
  have pos: "0 < Hour" by (simp add: Hour_def)
  have form: "Hours x = float64 (of_int (x div Hour)
                + float64 (float64 (of_int (x mod Hour)) / 3600000000000))"
    if "0 \<le> x" and "x \<le> 2 ^ 63" for x
  proof -
    have "trunc_div x Hour = x div Hour" using that by (simp add: trunc_div_def)
    moreover have "trunc_rem x Hour = x mod Hour"
      using that by (simp add: trunc_rem_def trunc_div_def minus_div_mult_eq_mod)
    ultimately show ?thesis using hour_part_exact [OF that] by (simp add: Hours_def)
  qed
  have le: "d div Hour \<le> d' div Hour" using assms(2) pos by (rule zdiv_mono1)
  have "rat_of_int (d div Hour) + float64 (float64 (of_int (d mod Hour)) / 3600000000000)
          \<le> of_int (d' div Hour) + float64 (float64 (of_int (d' mod Hour)) / 3600000000000)"
  proof (cases "d div Hour = d' div Hour")
    case True
    have "d mod Hour \<le> d' mod Hour"
      using assms(2) True by (metis add_le_cancel_left mult_div_mod_eq)
    then show ?thesis using True by (simp add: nsec_part_mono)
  next
    case False
    then have "d div Hour + 1 \<le> d' div Hour" using le by simp
    then have "rat_of_int (d div Hour) + 1 \<le> of_int (d' div Hour)"
      by (metis of_int_1 of_int_add of_int_le_iff)
    moreover have "float64 (float64 (of_int (d mod Hour)) / 3600000000000) \<le> 1"
      using pos by (intro nsec_part_range(2)) (simp_all add: less_imp_le)
    moreover have "0 \<le> float64 (float64 (of_int (d' mod Hour)) / 3600000000000)"
      using pos by (intro nsec_part_range(1)) (simp_all add: less_imp_le)
    ultimately show ?thesis by linarith
  qed
  then show ?thesis using form [OF assms(1) d63] form [OF d' assms(3)] by (simp add: float64_mono)
qed

lemma months_mono_nonneg:
  assumes "0 \<le> d" and "d \<le> d'" and "d' \<le> 2 ^ 63"
  shows "months_of d \<le> months_of d'"
proof -
  have "Hours d / 24 \<le> Hours d' / 24"
    using Hours_mono_nonneg [OF assms] by (simp add: divide_right_mono)
  then have "float64 (Hours d / 24) / 30 \<le> float64 (Hours d' / 24) / 30"
    by (simp add: float64_mono divide_right_mono)
  then show ?thesis unfolding months_of_def by (intro f64_to_int_mono float64_mono)
qed

lemma months_zero: "months_of 0 = 0"
  by (simp add: months_of_def Hours_def trunc_div_def trunc_rem_def f64_to_int_def float64_zero)

lemma months_mono:
  assumes "d \<le> d'" and "- (2 ^ 63) \<le> d" and "d' \<le> 2 ^ 63"
  shows "months_of d \<le> months_of d'"
proof -
  consider "0 \<le> d" | "d < 0" "0 \<le> d'" | "d' < 0" by linarith
  then show ?thesis
  proof cases
    case 1
    then show ?thesis using assms by (intro months_mono_nonneg)
  next
    case 2
    have "months_of 0 \<le> months_of (- d)" using 2 assms by (intro months_mono_nonneg) simp_all
    then have "months_of d \<le> 0" by (simp add: months_minus months_zero)
    moreover have "months_of 0 \<le> months_of d'" using 2 assms by (intro months_mono_nonneg) simp_all
    ultimately show ?thesis by (simp add: months_zero)
  next
    case 3
    then have "months_of (- d') \<le> months_of (- d)" using assms by (intro months_mono_nonneg) simp_all
    then show ?thesis by (simp add: months_minus)
  qed
qed

lemma months_at_thresholds:
  "months_of (360 * 24 * Hour - 3) = 12" "months_of (360 * 24 * Hour - 4) = 11"
  "months_of (180 * 24 * Hour - 1) = 6" "months_of (180 * 24 * Hour - 2) = 5"
  by code_simp+

lemma months_ge_12:
  assumes "- (2 ^ 63) \<le> d" and "d \<le> 2 ^ 63"
  shows "(12 \<le> months_of d) = (360 * 24 * Hour - 3 \<le> d)"
proof
  assume "12 \<le> months_of d"
  show "360 * 24 * Hour - 3 \<le> d"
  proof (rule ccontr)
    assume "\<not> 360 * 24 * Hour - 3 \<le> d"
    then have "d \<le> 360 * 24 * Hour - 4" by simp
    then have "months_of d \<le> months_of (360 * 24 * Hour - 4)"
      using assms(1) by (rule months_mono) (simp add: Hour_def)
    then show False using \<open>12 \<le> months_of d\<close> by (simp only: months_at_thresholds)
  qed
next
  assume "360 * 24 * Hour - 3 \<le> d"
  then have "months_of (360 * 24 * Hour - 3) \<le> months_of d"
    using _ assms(2) by (rule months_mono) (simp add: Hour_def)
  then show "12 \<le> months_of d" by (simp only: months_at_thresholds)
qed

lemma months_ge_6:
  assumes "- (2 ^ 63) \<le> d" and "d \<le> 2 ^ 63"
  shows "(6 \<le> months_of d) = (180 * 24 * Hour - 1 \<le> d)"
proof
  assume "6 \<le> months_of d"
  show "180 * 24 * Hour - 1 \<le> d"
  proof (rule ccontr)
    assume "\<not> 180 * 24 * Hour - 1 \<le> d"
    then have "d \<le> 180 * 24 * Hour - 2" by simp
    then have "months_of d \<le> months_of (180 * 24 * Hour - 2)"
      using assms(1) by (rule months_mono) (simp add: Hour_def)
    then show False using \<open>6 \<le> months_of d\<close> by (simp only: months_at_thresholds)
  qed
next
  assume "180 * 24 * Hour - 1 \<le> d"
  then have "months_of (180 * 24 * Hour - 1) \<le> months_of d"
    using _ assms(2) by (rule months_mono) (simp add: Hour_def)
  then show "6 \<le> months_of d" by (simp only: months_at_thresholds)
qed

subsection \<open>The thresholds\<close>

lemma monthsOld_ge_12:
  "(12 \<le> monthsOld now t) = (12 * (30 * 24 * Hour) - 3 \<le> now - t)"
proof -
  have "(12 \<le> monthsOld now t) = (360 * 24 * Hour - 3 \<le> time_Sub now t)"
    unfolding monthsOld_def time_Since_def
    by (rule months_ge_12) (rule time_Sub_range)+
  also have "\<dots> = (360 * 24 * Hour - 3 \<le> now - t)"
    by (rule time_Sub_ge) (simp_all add: Hour_def maxDuration_def)
  finally show ?thesis by simp
qed

lemma monthsOld_ge_6:
  "(6 \<le> monthsOld now t) = (6 * (30 * 24 * Hour) - 1 \<le> now - t)"
proof -
  have "(6 \<le> monthsOld now t) = (180 * 24 * Hour - 1 \<le> time_Sub now t)"
    unfolding monthsOld_def time_Since_def
    by (rule months_ge_6) (rule time_Sub_range)+
  also have "\<dots> = (180 * 24 * Hour - 1 \<le> now - t)"
    by (rule time_Sub_ge) (simp_all add: Hour_def maxDuration_def)
  finally show ?thesis by simp
qed

lemma spec_monthsOld_ge:
  assumes "0 < k"
  shows "(k \<le> spec_monthsOld now t) = (k * (30 * 24 * Hour) \<le> now - t)"
  unfolding spec_monthsOld_def
  by (rule trunc_div_ge) (simp_all add: Hour_def assms)

lemma android_risk_by_age:
  "analyzeAndroidRisk now p =
     (case time_Parse p of
        None \<Rightarrow> RiskHigh
      | Some t \<Rightarrow>
          (if 12 * (30 * 24 * Hour) - 3 \<le> now - t then RiskHigh
           else if 6 * (30 * 24 * Hour) - 1 \<le> now - t then RiskMedium
           else RiskLow))"
  by (simp add: analyzeAndroidRisk_def monthsOld_ge_12 monthsOld_ge_6 split: option.split)

text \<open>
  Claim C2, as the code has it. Android: an empty or unparsable patch level is High; a
  parseable one is High when its age is at least 360 days less 3 nanoseconds, Medium when
  at least 180 days less 1 nanosecond, Low otherwise (a patch date after the clock reading
  included). Away from the three ages 1 to 3 ns short of 360 days and the age 1 ns short of
  180 days, where the \<^verbatim>\<open>float64\<close> hour count rounds up to the boundary, this is: High
  when the age in truncated 30-day months is at least 12, Medium when at least 6, Low
  otherwise. The patch 2023-01-01 read on 2024-02-01, 2023-08-01 and 2023-02-01 (13, 7 and
  1 months later) is High, Medium and Low. iOS: an empty version, or one whose leading
  dot-separated field is not an integer, is High; otherwise a major version up to 15 is
  High, up to 17 Medium, above that Low; "14.2", "16.0", "18.1" and "" are High, Medium,
  Low and High.
\<close>

theorem risk_classification_thresholds:
  "analyzeAndroidRisk now p =
     (case time_Parse p of
        None \<Rightarrow> RiskHigh
      | Some t \<Rightarrow>
          (if 12 * (30 * 24 * Hour) - 3 \<le> now - t then RiskHigh
           else if 6 * (30 * 24 * Hour) - 1 \<le> now - t then RiskMedium
           else RiskLow))
   \<and> (\<forall>t. time_Parse p = Some t
          \<and> now - t \<notin> {12 * (30 * 24 * Hour) - 3, 12 * (30 * 24 * Hour) - 2,
                         12 * (30 * 24 * Hour) - 1, 6 * (30 * 24 * Hour) - 1} \<longrightarrow>
        analyzeAndroidRisk now p =
          (if 12 \<le> spec_monthsOld now t then RiskHigh
           else if 6 \<le> spec_monthsOld now t then RiskMedium
           else RiskLow))
   \<and> analyzeAndroidRisk now [] = RiskHigh
   \<and> analyzeAndroidRisk (time_Date 2024 2 1) ''2023-01-01'' = RiskHigh
   \<and> analyzeAndroidRisk (time_Date 2023 8 1) ''2023-01-01'' = RiskMedium
   \<and> analyzeAndroidRisk (time_Date 2023 2 1) ''2023-01-01'' = RiskLow
   \<and> analyzeIOSRisk v =
       (case (if v = [] then None else Atoi (split_first v)) of
          None \<Rightarrow> RiskHigh
        | Some n \<Rightarrow> if n \<le> 15 then RiskHigh else if n \<le> 17 then RiskMedium else RiskLow)
   \<and> analyzeIOSRisk ''14.2'' = RiskHigh
   \<and> analyzeIOSRisk ''16.0'' = RiskMedium
   \<and> analyzeIOSRisk ''18.1'' = RiskLow
   \<and> analyzeIOSRisk [] = RiskHigh"
proof -
  have a: "analyzeAndroidRisk now p =
     (case time_Parse p of
        None \<Rightarrow> RiskHigh
      | Some t \<Rightarrow>
          (if 12 * (30 * 24 * Hour) - 3 \<le> now - t then RiskHigh
           else if 6 * (30 * 24 * Hour) - 1 \<le> now - t then RiskMedium
           else RiskLow))"
    by (rule android_risk_by_age)
  have a': "\<forall>t. time_Parse p = Some t
          \<and> now - t \<notin> {12 * (30 * 24 * Hour) - 3, 12 * (30 * 24 * Hour) - 2,
                         12 * (30 * 24 * Hour) - 1, 6 * (30 * 24 * Hour) - 1} \<longrightarrow>
        analyzeAndroidRisk now p =
          (if 12 \<le> spec_monthsOld now t then RiskHigh
           else if 6 \<le> spec_monthsOld now t then RiskMedium
           else RiskLow)"
  proof (intro allI impI)
    fix t
    assume h: "time_Parse p = Some t
          \<and> now - t \<notin> {12 * (30 * 24 * Hour) - 3, 12 * (30 * 24 * Hour) - 2,
                         12 * (30 * 24 * Hour) - 1, 6 * (30 * 24 * Hour) - 1}"
    then have "(12 * (30 * 24 * Hour) - 3 \<le> now - t) = (12 * (30 * 24 * Hour) \<le> now - t)"
      and "(6 * (30 * 24 * Hour) - 1 \<le> now - t) = (6 * (30 * 24 * Hour) \<le> now - t)"
      by auto
    then show "analyzeAndroidRisk now p =
          (if 12 \<le> spec_monthsOld now t then RiskHigh
           else if 6 \<le> spec_monthsOld now t then RiskMedium
           else RiskLow)"
      using h by (simp add: android_risk_by_age spec_monthsOld_ge)
  qed
  have b: "analyzeAndroidRisk now [] = RiskHigh"
    by (simp add: analyzeAndroidRisk_def time_Parse_def)
  have c: "analyzeAndroidRisk (time_Date 2024 2 1) ''2023-01-01'' = RiskHigh" by code_simp
  have d: "analyzeAndroidRisk (time_Date 2023 8 1) ''2023-01-01'' = RiskMedium" by code_simp
  have e: "analyzeAndroidRisk (time_Date 2023 2 1) ''2023-01-01'' = RiskLow" by code_simp
  have f: "analyzeIOSRisk v =
       (case (if v = [] then None else Atoi (split_first v)) of
          None \<Rightarrow> RiskHigh
        | Some n \<Rightarrow> if n \<le> 15 then RiskHigh else if n \<le> 17 then RiskMedium else RiskLow)"
    by (simp add: analyzeIOSRisk_def split: option.split)
  have g: "analyzeIOSRisk ''14.2'' = RiskHigh" by code_simp
  have h: "analyzeIOSRisk ''16.0'' = RiskMedium" by code_simp
  have i: "analyzeIOSRisk ''18.1'' = RiskLow" by code_simp
  have j: "analyzeIOSRisk [] = RiskHigh" by (simp add: analyzeIOSRisk_def)
  from a a' b c d e f g h i j show ?thesis by blast
qed

text \<open>The thresholds at a concrete reading: a patch of 2023-01-01 read 359 days later,
  eleven whole 30-day months, is Medium, and the version "17.4" is Medium.\<close>

theorem risk_classification_thresholds_witness:
  "analyzeAndroidRisk (time_Date 2023 12 26) ''2023-01-01'' = RiskMedium
   \<and> spec_monthsOld (time_Date 2023 12 26) (time_Date 2023 1 1) = 11
   \<and> analyzeIOSRisk ''17.4'' = RiskMedium"
proof -
  have p: "time_Parse ''2023-01-01'' = Some (time_Date 2023 1 1)" by code_simp
  have q: "time_Date 2023 12 26 - time_Date 2023 1 1
      \<notin> {12 * (30 * 24 * Hour) - 3, 12 * (30 * 24 * Hour) - 2,
         12 * (30 * 24 * Hour) - 1, 6 * (30 * 24 * Hour) - 1}" by code_simp
  have r: "spec_monthsOld (time_Date 2023 12 26) (time_Date 2023 1 1) = 11" by code_simp
  have s: "Atoi (split_first ''17.4'') = Some 17" by code_simp
  note T = risk_classification_thresholds [of "time_Date 2023 12 26" "''2023-01-01''" "''17.4''"]
  from T [THEN conjunct2, THEN conjunct1, THEN spec, of "time_Date 2023 1 1"] p q
  have "analyzeAndroidRisk (time_Date 2023 12 26) ''2023-01-01'' =
          (if 12 \<le> spec_monthsOld (time_Date 2023 12 26) (time_Date 2023 1 1) then RiskHigh
           else if 6 \<le> spec_monthsOld (time_Date 2023 12 26) (time_Date 2023 1 1)
             then RiskMedium
           else RiskLow)"
    by blast
  then have a: "analyzeAndroidRisk (time_Date 2023 12 26) ''2023-01-01'' = RiskMedium"
    by (simp add: r)
  from T have "analyzeIOSRisk ''17.4'' =
       (case (if ''17.4'' = [] then None else Atoi (split_first ''17.4'')) of
          None \<Rightarrow> RiskHigh
        | Some n \<Rightarrow> if n \<le> 15 then RiskHigh else if n \<le> 17 then RiskMedium else RiskLow)"
    by blast
  then have b: "analyzeIOSRisk ''17.4'' = RiskMedium" by (simp add: s)
  from a r b show ?thesis by blast
qed

text \<open>
  The claim as worded fails within nanoseconds of a boundary. A patch of 2023-01-01 read
  one nanosecond before 2023-12-27 is 360 days less 1 ns old, eleven whole 30-day months,
  and is rated High, not Medium: its hour count \<open>8639 + 3599999999999 / 3600000000000\<close>
  rounds to the \<^verbatim>\<open>float64\<close> 8640. Read one nanosecond before 2023-06-30 it is five whole
  months old and is rated Medium, not Low.
\<close>

theorem rounded_month_count_counterexample:
  "time_Parse ''2023-01-01'' = Some (time_Date 2023 1 1)
   \<and> spec_monthsOld (time_Date 2023 12 27 - 1) (time_Date 2023 1 1) = 11
   \<and> analyzeAndroidRisk (time_Date 2023 12 27 - 1) ''2023-01-01'' = RiskHigh
   \<and> spec_monthsOld (time_Date 2023 6 30 - 1) (time_Date 2023 1 1) = 5
   \<and> analyzeAndroidRisk (time_Date 2023 6 30 - 1) ''2023-01-01'' = RiskMedium"
  by code_simp

section \<open>Properties: the store\<close>

lemma tx_Ascend_stops:
  assumes "list_all (\<lambda>kv. Unmarshal J (snd kv) \<noteq> None) pre" and "Unmarshal J v = None"
  shows "tx_Ascend (pre @ (k, v) # post)
           (\<lambda>key value devices.
              case Unmarshal J value of
                None \<Rightarrow> (False, devices)
              | Some device \<Rightarrow> (True, if P device then devices @ [device] else devices))
           acc
         = acc @ filter P (List.map_filter (\<lambda>kv. Unmarshal J (snd kv)) pre)"
  using assms
proof (induction pre arbitrary: acc)
  case Nil
  then show ?case by simp
next
  case (Cons a pre)
  obtain k' v' where a: "a = (k', v')" by (cases a)
  from Cons.prems obtain d where d: "Unmarshal J v' = Some d" by (auto simp: a)
  from Cons.prems have rest: "list_all (\<lambda>kv. Unmarshal J (snd kv) \<noteq> None) pre" by simp
  show ?case
    using Cons.IH [OF rest Cons.prems(2)] d
    by (simp add: a)
qed

text \<open>
  Claim C9. When the ordered scan reaches a record whose value does not decode as a
  device, with every record before it decodable, \<open>List\<close>, \<open>GetByPlatform\<close> and
  \<open>GetActiveDevices\<close> return, with a nil error, exactly what the records before it
  contribute: the malformed record and all records after it in key order are left out.
\<close>

theorem scan_stops_at_malformed_record:
  assumes "list_all (\<lambda>kv. Unmarshal J (snd kv) \<noteq> None) pre" and "Unmarshal J v = None"
  shows "List J False (pre @ (k, v) # post)
           = Inr (List.map_filter (\<lambda>kv. Unmarshal J (snd kv)) pre)
       \<and> GetByPlatform J False platform (pre @ (k, v) # post)
           = Inr (filter (\<lambda>d. Platform d = platform)
                   (List.map_filter (\<lambda>kv. Unmarshal J (snd kv)) pre))
       \<and> GetActiveDevices J False (pre @ (k, v) # post)
           = Inr (filter (\<lambda>d. ActivationStatus d = ''ACTIVATED'')
                   (List.map_filter (\<lambda>kv. Unmarshal J (snd kv)) pre))"
proof -
  have a: "List J False (pre @ (k, v) # post)
           = Inr (List.map_filter (\<lambda>kv. Unmarshal J (snd kv)) pre)"
    using tx_Ascend_stops [OF assms, where P = "\<lambda>d. True" and acc = "[]"]
    by (simp add: List_def cong: option.case_cong)
  have b: "GetByPlatform J False platform (pre @ (k, v) # post)
           = Inr (filter (\<lambda>d. Platform d = platform)
                   (List.map_filter (\<lambda>kv. Unmarshal J (snd kv)) pre))"
    using tx_Ascend_stops [OF assms, where P = "\<lambda>d. Platform d = platform" and acc = "[]"]
    by (simp add: GetByPlatform_def)
  have c: "GetActiveDevices J False (pre @ (k, v) # post)
           = Inr (filter (\<lambda>d. ActivationStatus d = ''ACTIVATED'')
                   (List.map_filter (\<lambda>kv. Unmarshal J (snd kv)) pre))"
    using tx_Ascend_stops [OF assms, where P = "\<lambda>d. ActivationStatus d = ''ACTIVATED''" and acc = "[]"]
    by (simp add: GetActiveDevices_def)
  from a b c show ?thesis by simp
qed

text \<open>A table of three records, the second malformed: only the first is listed.\<close>

theorem scan_stops_at_malformed_record_witness:
  "List J0 False [(''a'', ''P9''), (''b'', ''{''), (''c'', ''C5'')]
     = Inr [dev_p\<lparr>LastUpdated := 9\<rparr>]
   \<and> GetByPlatform J0 False ''IOS'' [(''a'', ''P9''), (''b'', ''{''), (''c'', ''C5'')] = Inr []
   \<and> GetActiveDevices J0 False [(''a'', ''P9''), (''b'', ''{''), (''c'', ''C5'')]
     = Inr [dev_p\<lparr>LastUpdated := 9\<rparr>]"
proof -
  have h1: "list_all (\<lambda>kv. Unmarshal J0 (snd kv) \<noteq> None) [(''a'', ''P9'')]"
    by (simp add: J0_def)
  have h2: "Unmarshal J0 ''{'' = None" by (simp add: J0_def)
  show ?thesis
    using scan_stops_at_malformed_record [OF h1 h2, of "''b''" "[(''c'', ''C5'')]" "''IOS''"]
    by (simp add: J0_def dev_p_def)
qed

lemma tx_Get_tx_Set: "tx_Get (tx_Set t k v) k' = (if k' = k then Some v else tx_Get t k')"
  by (induction t k v rule: tx_Set.induct) (auto simp: tx_Get_def)

lemma keys_tx_Set: "fst ` set (tx_Set t k v) = insert k (fst ` set t)"
  by (induction t k v rule: tx_Set.induct) auto


lemma db_ok_tx_Set: "db_ok t \<Longrightarrow> db_ok (tx_Set t k v)"
proof (induction t k v rule: tx_Set.induct)
  case (1 k v)
  then show ?case by (simp add: db_ok_def)
next
  case (2 k' v' t k v)
  then show ?case
    using keys_tx_Set [of t k v]
    by (auto simp: db_ok_def)
qed

lemma tx_Set_replace: "tx_Set (tx_Set t k v) k v' = tx_Set t k v'"
  by (induction t k v rule: tx_Set.induct) auto

lemma db_ok_once: "db_ok t \<Longrightarrow> length (filter (\<lambda>kv. fst kv = k) (tx_Set t k v)) = 1"
proof (induction t k v rule: tx_Set.induct)
  case (1 k v)
  then show ?case by simp
next
  case (2 k' v' t k v)
  have "\<forall>x\<in>set t. k' < fst x" using 2 by (auto simp: db_ok_def)
  then have "k < k' \<Longrightarrow> filter (\<lambda>kv. fst kv = k) t = []"
    by (auto simp: filter_empty_conv)
  moreover have "k = k' \<Longrightarrow> filter (\<lambda>kv. fst kv = k) t = []"
    using \<open>\<forall>x\<in>set t. k' < fst x\<close> by (auto simp: filter_empty_conv)
  ultimately show ?case using 2 by (auto simp: db_ok_def)
qed

text \<open>
  Claim C4. Saving a device \<open>d\<close> with a non-empty guid (at a clock reading \<open>now\<close>, not
  before the call, with a codec that gives the record back) and getting its guid returns
  \<open>d\<close> with \<open>lastUpdated\<close> set to \<open>now\<close> and every other field as it was. The table keeps
  strictly increasing keys, gains at most the key of \<open>d\<close>, and holds that key once; a
  later \<open>Save\<close> of a record with the same guid leaves the table it would have left
  without the first one.
\<close>

theorem save_then_get:
  assumes "GUID d \<noteq> []"
    and "Marshal J (d\<lparr>LastUpdated := now\<rparr>) = Some data"
    and "Unmarshal J data = Some (d\<lparr>LastUpdated := now\<rparr>)"
    and "db_ok t"
    and "called \<le> now"
  shows "Save J False now d t = Inr (tx_Set t (GUID d) data)
       \<and> Get J False (GUID d) (tx_Set t (GUID d) data) = Inr (d\<lparr>LastUpdated := now\<rparr>)
       \<and> called \<le> LastUpdated (d\<lparr>LastUpdated := now\<rparr>)
       \<and> db_ok (tx_Set t (GUID d) data)
       \<and> fst ` set (tx_Set t (GUID d) data) = insert (GUID d) (fst ` set t)
       \<and> length (filter (\<lambda>kv. fst kv = GUID d) (tx_Set t (GUID d) data)) = 1
       \<and> (if GUID d' = GUID d
          then Save J False now' d' (tx_Set t (GUID d) data) = Save J False now' d' t
          else True)"
proof -
  have a: "Save J False now d t = Inr (tx_Set t (GUID d) data)"
    using assms(2) by (simp add: Save_def)
  have b: "Get J False (GUID d) (tx_Set t (GUID d) data) = Inr (d\<lparr>LastUpdated := now\<rparr>)"
    using assms(3) by (simp add: Get_def tx_Get_tx_Set)
  have c: "called \<le> LastUpdated (d\<lparr>LastUpdated := now\<rparr>)"
    using assms(5) by simp
  have e: "db_ok (tx_Set t (GUID d) data)"
    using assms(4) by (rule db_ok_tx_Set)
  have f: "fst ` set (tx_Set t (GUID d) data) = insert (GUID d) (fst ` set t)"
    by (rule keys_tx_Set)
  have g: "length (filter (\<lambda>kv. fst kv = GUID d) (tx_Set t (GUID d) data)) = 1"
    using assms(4) by (rule db_ok_once)
  have h: "GUID d' = GUID d \<Longrightarrow>
      Save J False now' d' (tx_Set t (GUID d) data) = Save J False now' d' t"
    by (simp add: Save_def tx_Set_replace split: option.split)
  from a b c e f g h show ?thesis by simp
qed

text \<open>Saving the child device into a table of one record, reading it back, saving it
  again.\<close>

theorem save_then_get_witness:
  "Save J0 False 5 dev_c [(''a'', ''P9'')] = Inr [(''a'', ''P9''), (''child'', ''C5'')]
   \<and> Get J0 False ''child'' [(''a'', ''P9''), (''child'', ''C5'')]
       = Inr (dev_c\<lparr>LastUpdated := 5\<rparr>)
   \<and> Save J0 False 5 dev_c [(''a'', ''P9''), (''child'', ''C5'')]
       = Inr [(''a'', ''P9''), (''child'', ''C5'')]"
proof -
  have h1: "GUID dev_c \<noteq> []" by (simp add: dev_c_def)
  have h2: "Marshal J0 (dev_c\<lparr>LastUpdated := 5\<rparr>) = Some ''C5''" by (simp add: J0_def)
  have h3: "Unmarshal J0 ''C5'' = Some (dev_c\<lparr>LastUpdated := 5\<rparr>)" by (simp add: J0_def)
  have h4: "db_ok [(''a'', ''P9'')]" by (simp add: db_ok_def)
  have h5: "(3::int) \<le> 5" by simp
  have g: "GUID dev_c = ''child''" by (simp add: dev_c_def)
  show ?thesis
    using save_then_get [OF h1 h2 h3 h4 h5, of dev_c 5]
    by (simp add: g)
qed

section \<open>Properties: the device service\<close>









lemma parent_first_example:
  "CreateDevice J0 False 5 (Some dev_c) [(''parent-0001'', ''P3'')]
     = (None, [(''child'', ''C5''), (''parent-0001'', ''Q5'')])"
  by (simp add: CreateDevice_def validateDevice_def validStatuses_def Save_def Get_def
      Update_def tx_Get_def J0_def dev_c_def dev_p_def)

section \<open>Properties: the service-layer vulnerability check\<close>

lemma time_Since_gt:
  assumes "0 \<le> c" and "c < maxDuration"
  shows "(c < time_Since now t) = (c < now - t)"
  using assms unfolding time_Since_def time_Sub_def maxDuration_def minDuration_def
  by auto

lemma two_bytes_vs_major:
  assumes "2 < length v"
  shows "(take 2 v < ''15'') = (split_first v < ''15'')"
proof -
  from assms obtain a b w where v: "v = a # b # w"
    by (cases v; cases "tl v") auto
  show ?thesis
  proof (cases "a = CHR ''.''")
    case True
    then show ?thesis by (simp add: v split_first_def)
  next
    case False
    note a = this
    show ?thesis
    proof (cases "b = CHR ''.''")
      case True
      then show ?thesis using a by (auto simp: v split_first_def)
    next
      case False
      then show ?thesis using a by (auto simp: v split_first_def)
    qed
  qed
qed

lemma foldl_tally_vulnerable:
  "VulnerableDevices (foldl (tally now) s ds)
     = VulnerableDevices s + int (length (filter (isVulnerable now) ds))"
  by (induction ds arbitrary: s) (simp_all add: tally_def)

text \<open>
  Where the check does what the claim says. An Android device is vulnerable exactly when
  its patch level is empty, does not parse as a date, or lies more than 180 days before
  the clock reading. An iOS device whose version is empty or longer than two bytes is
  vulnerable exactly when the version is empty or its major version (the bytes before the
  first dot) is lexically less than "15". \<open>GetDeviceStatistics\<close> counts the devices of the
  list for which the check holds.
\<close>

lemma isVulnerable_android:
  assumes "Platform d = ''ANDROID''"
  shows "isVulnerable now d =
        (SecurityPatchLevel (Software d) = []
         \<or> (case time_Parse (SecurityPatchLevel (Software d)) of
               None \<Rightarrow> True
             | Some patchDate \<Rightarrow> 180 * 24 * Hour < now - patchDate))"
proof -
  have lim: "(0::int) \<le> 180 * 24 * Hour" "180 * 24 * Hour < maxDuration"
    by (simp_all add: Hour_def maxDuration_def)
  show ?thesis
    using assms time_Since_gt [OF lim]
    by (simp add: isVulnerable_def split: option.split)
qed

lemma isVulnerable_ios_long:
  assumes "Platform d = ''IOS''"
    and "OSVersion (Software d) = [] \<or> 2 < length (OSVersion (Software d))"
  shows "isVulnerable now d =
        (OSVersion (Software d) = [] \<or> split_first (OSVersion (Software d)) < ''15'')"
  using assms two_bytes_vs_major [of "OSVersion (Software d)"]
  by (auto simp: isVulnerable_def)

lemma vulnerable_count:
  assumes "List J ctx_done t = Inr devices"
  shows "map_sum (\<lambda>e. ()) VulnerableDevices (GetDeviceStatistics J ctx_done now t)
        = Inr (int (length (filter (isVulnerable now) devices)))"
  using assms by (simp add: GetDeviceStatistics_def foldl_tally_vulnerable)

text \<open>
  Claim C6 at the iOS version "14". The claim makes an iOS device vulnerable exactly when
  the major version of its \<open>osVersion\<close> is lexically less than "15", and the comment in
  \<^verbatim>\<open>isVulnerable\<close> says the same: versions older than iOS 15 are vulnerable. The device
  \<open>dev_c\<close> runs iOS "14": its major version "14" is lexically less than "15", the analyzer
  rates it High, and yet \<^verbatim>\<open>isVulnerable\<close> answers false and the statistics count no
  vulnerable device, because the check compares the first two bytes only when the version
  has more than two. The same device with the version written "14.0" is vulnerable.
\<close>

theorem ios_two_byte_version_not_vulnerable:
  "Platform dev_c = ''IOS''
   \<and> OSVersion (Software dev_c) = ''14''
   \<and> split_first (OSVersion (Software dev_c)) < ''15''
   \<and> analyzeIOSRisk (OSVersion (Software dev_c)) = RiskHigh
   \<and> isVulnerable 0 dev_c = False
   \<and> isVulnerable 0 (dev_c\<lparr>Software := \<lparr>SecurityPatchLevel = [], OSVersion = ''14.0''\<rparr>\<rparr>) = True
   \<and> map_sum (\<lambda>e. ()) VulnerableDevices (GetDeviceStatistics J0 False 0 [(''child'', ''C5'')])
       = Inr 0"
proof -
  have a: "Platform dev_c = ''IOS''" and b: "OSVersion (Software dev_c) = ''14''"
    by (simp_all add: dev_c_def)
  have c: "split_first (OSVersion (Software dev_c)) < ''15''"
    by (simp add: dev_c_def split_first_def)
  have d: "analyzeIOSRisk (OSVersion (Software dev_c)) = RiskHigh" unfolding b by code_simp
  have e: "isVulnerable 0 dev_c = False" by (simp add: isVulnerable_def dev_c_def)
  have f: "isVulnerable 0 (dev_c\<lparr>Software := \<lparr>SecurityPatchLevel = [], OSVersion = ''14.0''\<rparr>\<rparr>)
             = True"
    by (simp add: isVulnerable_def dev_c_def)
  have l: "List J0 False [(''child'', ''C5'')] = Inr [dev_c\<lparr>LastUpdated := 5\<rparr>]"
    by (simp add: List_def J0_def)
  have v: "\<not> isVulnerable 0 (dev_c\<lparr>LastUpdated := 5\<rparr>)"
    by (simp add: isVulnerable_def dev_c_def)
  have g: "map_sum (\<lambda>e. ()) VulnerableDevices
             (GetDeviceStatistics J0 False 0 [(''child'', ''C5'')]) = Inr 0"
    using vulnerable_count [OF l, of 0] v by simp
  from a b c d e f g show ?thesis by blast
qed

section \<open>Properties: the version distributions\<close>

lemma set_insert_sorted: "set (insert_sorted lt x xs) = insert x (set xs)"
  by (induction xs) auto

lemma sorted_insert_sorted:
  assumes asym: "\<And>a b. lt a b \<Longrightarrow> \<not> lt b a"
    and tr: "\<And>a b c. lt a b \<Longrightarrow> \<not> lt c b \<Longrightarrow> \<not> lt c a"
    and "sorted_wrt (\<lambda>a b. \<not> lt b a) xs"
  shows "sorted_wrt (\<lambda>a b. \<not> lt b a) (insert_sorted lt x xs)"
  using assms(3)
proof (induction xs)
  case Nil
  then show ?case by simp
next
  case (Cons y ys)
  from Cons.prems have hd: "\<forall>z\<in>set ys. \<not> lt z y" and tl: "sorted_wrt (\<lambda>a b. \<not> lt b a) ys"
    by simp_all
  show ?case
  proof (cases "lt x y")
    case True
    have "\<not> lt y x" using True by (rule asym)
    moreover have "\<forall>z\<in>set ys. \<not> lt z x"
    proof
      fix z assume "z \<in> set ys"
      with hd have "\<not> lt z y" by simp
      with True show "\<not> lt z x" by (rule tr)
    qed
    ultimately show ?thesis using True hd tl by simp
  next
    case False
    have "sorted_wrt (\<lambda>a b. \<not> lt b a) (insert_sorted lt x ys)" using Cons.IH [OF tl] .
    then show ?thesis using False hd by (simp add: set_insert_sorted)
  qed
qed

lemma sorted_sort_Slice:
  assumes "\<And>a b. lt a b \<Longrightarrow> \<not> lt b a"
    and "\<And>a b c. lt a b \<Longrightarrow> \<not> lt c b \<Longrightarrow> \<not> lt c a"
  shows "sorted_wrt (\<lambda>a b. \<not> lt b a) (sort_Slice lt xs)"
  unfolding sort_Slice_def
proof (induction xs)
  case Nil
  show ?case by simp
next
  case (Cons x xs)
  have "sorted_wrt (\<lambda>a b. \<not> lt b a) (insert_sorted lt x (foldr (insert_sorted lt) xs []))"
    using sorted_insert_sorted [of lt, OF assms Cons.IH [unfolded sort_Slice_def]] .
  then show ?case by simp
qed

text \<open>The Android list is in descending lexical order of the version strings, as the
  claim says.\<close>

lemma android_distribution_sorted:
  "sorted_wrt (\<lambda>a b. Version b \<le> Version a) (analyzeAndroidVersionDistribution now patches)"
proof -
  have "sorted_wrt (\<lambda>a b. \<not> (\<lambda>a b. Version a > Version b) b a)
          (sort_Slice (\<lambda>a b. Version a > Version b) xs)" for xs :: "VersionDistribution list"
  proof (rule sorted_sort_Slice [of "\<lambda>a b. Version a > Version b"])
    show "\<And>a b :: VersionDistribution. Version b < Version a \<Longrightarrow> \<not> Version a < Version b"
      by simp
    show "\<And>a b c :: VersionDistribution.
            Version b < Version a \<Longrightarrow> \<not> Version b < Version c \<Longrightarrow> \<not> Version a < Version c"
      by simp
  qed
  then show ?thesis by (simp add: analyzeAndroidVersionDistribution_def not_less)
qed

text \<open>
  Claim C7 at the iOS versions "9.0" and "10.0". The claim orders the iOS list by the major
  version as an integer, descending, and so does the sibling \<^verbatim>\<open>analyzeIOSUpdatePatterns\<close>,
  which converts each major version with \<^verbatim>\<open>strconv.Atoi\<close> before sorting; the function
  itself converts it the same way to decide \<^verbatim>\<open>IsSupported\<close>. The comparison function of
  its sort compares the major versions as strings: "9" is greater than "10", and the list
  for the versions "9.0" and "10.0" is "9.0", "10.0" in whichever order the map is walked,
  where the integer order puts "10.0" first.
\<close>

theorem ios_distribution_order_at_9_10:
  "map Version (analyzeIOSVersionDistribution [(''9.0'', 1), (''10.0'', 1)])
     = [''9.0'', ''10.0'']
   \<and> map Version (analyzeIOSVersionDistribution [(''10.0'', 1), (''9.0'', 1)])
     = [''9.0'', ''10.0'']
   \<and> ios_major ''9.0'' = 9 \<and> ios_major ''10.0'' = 10
   \<and> spec_ios_before ''10.0'' ''9.0''
   \<and> \<not> spec_ios_before ''9.0'' ''10.0''"
  by code_simp

end
